theory Spec2Isabelle
  imports Main "HOL-Library.Sublist"
begin

section \<open>Workbook analyser: data model\<close>

text \<open>
  The program is a single Python module, \<^verbatim>\<open>main.py\<close>:
  \<^verbatim>\<open>select_file\<close>, \<^verbatim>\<open>analyze_excel_file\<close>, \<^verbatim>\<open>create_excel_instance\<close>,
  \<^verbatim>\<open>save_analysis_to_file\<close> and \<^verbatim>\<open>main\<close>. Everything it does goes through
  collaborators (the operating system, the workbook reader, the office automation
  interface, the dialog toolkit), so the model takes their answers from a \<open>world\<close> record
  and returns, next to each result, the list of calls made to them, in order.

  Python strings are modelled as \<open>string\<close>, one \<open>char\<close> per character of the Python
  string. Exceptions are values: every function that can raise returns \<open>exn + 'a\<close>.
  Only exceptions below Python's \<^verbatim>\<open>Exception\<close> class are modelled (the ones
  \<^verbatim>\<open>except Exception\<close> catches).
\<close>

datatype exn =
    FileNotFoundError string
  | Exception string
  | CollaboratorError string

text \<open>\<^verbatim>\<open>str(e)\<close>: the text of an exception.\<close>

fun str :: "exn \<Rightarrow> string" where
  "str (FileNotFoundError m) = m"
| "str (Exception m) = m"
| "str (CollaboratorError m) = m"

text \<open>A worksheet as the workbook reader exposes it: \<^verbatim>\<open>sheet.title\<close>,
  the value of \<^verbatim>\<open>sheet.calculate_dimension()\<close> and \<^verbatim>\<open>sheet.print_area\<close>
  (\<open>None\<close> for Python's \<^verbatim>\<open>None\<close>).\<close>

record sheet =
  title :: string
  calculate_dimension :: string
  print_area :: "string option"

text \<open>The dictionaries \<^verbatim>\<open>sheet_info\<close> and \<^verbatim>\<open>module_info\<close>, with keys
  \<^verbatim>\<open>name\<close>, \<^verbatim>\<open>has_content\<close>, \<^verbatim>\<open>print_area\<close> and
  \<^verbatim>\<open>name\<close>, \<^verbatim>\<open>type\<close>, \<^verbatim>\<open>code_lines\<close>.\<close>

record sheet_info =
  ws_name :: string
  ws_has_content :: bool
  ws_print_area :: string

record module_info =
  mod_name :: string
  mod_type :: int
  mod_code_lines :: int

text \<open>The dictionary \<^verbatim>\<open>results\<close>. \<^verbatim>\<open>module_code\<close> is a Python dictionary, whose
  iteration order is insertion order: an association list. The key \<^verbatim>\<open>vba_error\<close>
  is absent until the handler stores it: an option.\<close>

record results =
  filename :: string
  full_path :: string
  analysis_date :: string
  worksheets :: "sheet_info list"
  modules :: "module_info list"
  module_code :: "(string \<times> string) list"
  vba_error :: "string option"

text \<open>\<^verbatim>\<open>d[k] = v\<close> on a dictionary: an existing key keeps its position, a new key goes
  last.\<close>

fun dict_set :: "string \<Rightarrow> string \<Rightarrow> (string \<times> string) list \<Rightarrow> (string \<times> string) list" where
  "dict_set k v [] = [(k, v)]"
| "dict_set k v (p # ps) = (if fst p = k then (k, v) # ps else p # dict_set k v ps)"

definition dict_keys :: "(string \<times> string) list \<Rightarrow> string set" where
  "dict_keys d = set (map fst d)"

text \<open>A macro component as the automation interface exposes it. Each property read either
  raises or gives a value, and gives the same answer every time it is read while the
  workbook is open: \<^verbatim>\<open>component.Name\<close>, \<^verbatim>\<open>component.Type\<close>,
  \<^verbatim>\<open>component.CodeModule.CountOfLines\<close>, \<^verbatim>\<open>component.CodeModule.Lines(a, b)\<close>.\<close>

record component =
  Name :: "exn + string"
  Type :: "exn + int"
  CountOfLines :: "exn + int"
  Lines :: "int \<Rightarrow> int \<Rightarrow> exn + string"

text \<open>The workbook opened through the automation session: what iterating
  \<^verbatim>\<open>wb_vba.VBProject.VBComponents\<close> gives (or the exception it raises, as when the host
  forbids access to the project) and whether \<^verbatim>\<open>Close\<close> raises.\<close>

record vba_workbook =
  VBComponents :: "exn + component list"
  Close :: "exn option"

text \<open>The application object: whether setting \<^verbatim>\<open>DisplayAlerts\<close> and
  \<^verbatim>\<open>Visible\<close> raises, what \<^verbatim>\<open>Workbooks.Open\<close> gives for a path, whether
  \<^verbatim>\<open>Quit\<close> raises.\<close>

record excel_app =
  set_DisplayAlerts :: "exn option"
  set_Visible :: "exn option"
  Workbooks_Open :: "string \<Rightarrow> exn + vba_workbook"
  Quit :: "exn option"

record datetime =
  year :: nat
  month :: nat
  day :: nat
  hour :: nat
  minute :: nat
  second :: nat

text \<open>The collaborators. The functions of \<^verbatim>\<open>os.path\<close> are parameters; so are the clock
  at the two places that read it, the file dialog's answer, the workbook reader, the
  automation interface (\<^verbatim>\<open>win32com.client.Dispatch("Excel.Application")\<close>) and whether
  opening a path for writing raises. \<^verbatim>\<open>pythoncom.CoInitialize\<close> and
  \<^verbatim>\<open>pythoncom.CoUninitialize\<close> do not raise.\<close>

record world =
  os_path_exists :: "string \<Rightarrow> bool"
  os_path_basename :: "string \<Rightarrow> string"
  os_path_dirname :: "string \<Rightarrow> string"
  os_path_abspath :: "string \<Rightarrow> string"
  os_path_splitext :: "string \<Rightarrow> string \<times> string"
  os_path_join :: "string \<Rightarrow> string \<Rightarrow> string"
  now_analysis :: datetime
  now_report :: datetime
  askopenfilename :: string
  load_workbook :: "string \<Rightarrow> exn + sheet list"
  Dispatch :: "exn + excel_app"
  open_write :: "string \<Rightarrow> exn option"

text \<open>The calls made to the collaborators that the claims speak about, logged when the
  call is made, whether or not it raises.\<close>

datatype event =
    AskOpenFilename
  | Print string
  | LoadWorkbook string
  | CoInitialize
  | DispatchExcel
  | SetDisplayAlerts bool
  | SetVisible bool
  | WorkbooksOpen string bool
  | WorkbookClose bool
  | AppQuit
  | CoUninitialize
  | WriteFile string string string
  | ShowInfo string string
  | ShowError string string

section \<open>Formatting\<close>

definition nl :: string where
  "nl = [CHR 0x0A]"

definition digit_char :: "nat \<Rightarrow> char" where
  "digit_char d = ''0123456789'' ! (d mod 10)"

text \<open>\<^verbatim>\<open>str(n)\<close> for a natural number and for an integer.\<close>

fun str_nat :: "nat \<Rightarrow> string" where
  "str_nat n = (if n < 10 then [digit_char n] else str_nat (n div 10) @ [digit_char n])"

declare str_nat.simps [simp del]

definition str_int :: "int \<Rightarrow> string" where
  "str_int i = (if i < 0 then ''-'' @ str_nat (nat (- i)) else str_nat (nat i))"

definition str_bool :: "bool \<Rightarrow> string" where
  "str_bool b = (if b then ''True'' else ''False'')"

text \<open>Zero-padded fields of \<^verbatim>\<open>strftime\<close>: \<^verbatim>\<open>%m %d %H %M %S\<close> to two digits,
  \<^verbatim>\<open>%Y\<close> to four.\<close>

definition pad :: "nat \<Rightarrow> string \<Rightarrow> string" where
  "pad k s = replicate (k - length s) (CHR ''0'') @ s"

text \<open>\<^verbatim>\<open>strftime("%Y-%m-%d %H:%M:%S")\<close> and \<^verbatim>\<open>strftime("%Y%m%d_%H%M%S")\<close>.\<close>

definition strftime_date :: "datetime \<Rightarrow> string" where
  "strftime_date t =
     pad 4 (str_nat (year t)) @ ''-'' @ pad 2 (str_nat (month t)) @ ''-'' @ pad 2 (str_nat (day t))
     @ '' '' @ pad 2 (str_nat (hour t)) @ '':'' @ pad 2 (str_nat (minute t)) @ '':''
     @ pad 2 (str_nat (second t))"

definition strftime_stamp :: "datetime \<Rightarrow> string" where
  "strftime_stamp t =
     pad 4 (str_nat (year t)) @ pad 2 (str_nat (month t)) @ pad 2 (str_nat (day t))
     @ ''_'' @ pad 2 (str_nat (hour t)) @ pad 2 (str_nat (minute t)) @ pad 2 (str_nat (second t))"

text \<open>\<^verbatim>\<open>sub in s\<close> on strings.\<close>

fun contains :: "string \<Rightarrow> string \<Rightarrow> bool" where
  "contains sub [] = (sub = [])"
| "contains sub (c # cs) = (prefix sub (c # cs) \<or> contains sub cs)"

section \<open>The structural reader\<close>

text \<open>The body of the loop over \<^verbatim>\<open>wb.worksheets\<close>. A string is true in Python when it
  is not empty, and \<^verbatim>\<open>None\<close> is false.\<close>

definition make_sheet_info :: "sheet \<Rightarrow> sheet_info" where
  "make_sheet_info sh =
     \<lparr> ws_name = title sh,
       ws_has_content = (calculate_dimension sh \<noteq> ''A1:A1''),
       ws_print_area = (case print_area sh of
                          Some a \<Rightarrow> if a \<noteq> [] then a else ''Not Set''
                        | None \<Rightarrow> ''Not Set'') \<rparr>"

fun read_worksheets :: "sheet list \<Rightarrow> results \<Rightarrow> results" where
  "read_worksheets [] r = r"
| "read_worksheets (sh # shs) r =
     read_worksheets shs (r\<lparr>worksheets := worksheets r @ [make_sheet_info sh]\<rparr>)"

section \<open>The macro extractor\<close>

text \<open>\<^verbatim>\<open>create_excel_instance\<close>: the runtime is initialised first; an exception from
  \<^verbatim>\<open>Dispatch\<close> or from setting either property is re-raised with a prefixed text.\<close>

definition create_excel_instance :: "world \<Rightarrow> (exn + excel_app) \<times> event list" where
  "create_excel_instance w =
     (case Dispatch w of
        Inl e \<Rightarrow>
          (Inl (Exception (''Could not create Excel instance: '' @ str e)),
           [CoInitialize, DispatchExcel])
      | Inr excel \<Rightarrow>
          (case set_DisplayAlerts excel of
             Some e \<Rightarrow>
               (Inl (Exception (''Could not create Excel instance: '' @ str e)),
                [CoInitialize, DispatchExcel, SetDisplayAlerts False])
           | None \<Rightarrow>
               (case set_Visible excel of
                  Some e \<Rightarrow>
                    (Inl (Exception (''Could not create Excel instance: '' @ str e)),
                     [CoInitialize, DispatchExcel, SetDisplayAlerts False, SetVisible False])
                | None \<Rightarrow>
                    (Inr excel,
                     [CoInitialize, DispatchExcel, SetDisplayAlerts False, SetVisible False]))))"

text \<open>The body of the loop over the components: the exception raised, if any, and
  \<^verbatim>\<open>results\<close> as the body leaves it. The record is appended to \<^verbatim>\<open>modules\<close>
  before the line count is tested and the text fetched.\<close>

definition process_component :: "component \<Rightarrow> results \<Rightarrow> exn option \<times> results" where
  "process_component c r =
     (case Name c of
        Inl e \<Rightarrow> (Some e, r)
      | Inr n \<Rightarrow>
     (case Type c of
        Inl e \<Rightarrow> (Some e, r)
      | Inr t \<Rightarrow>
     (case CountOfLines c of
        Inl e \<Rightarrow> (Some e, r)
      | Inr k \<Rightarrow>
          (let r1 = r\<lparr>modules := modules r @ [\<lparr>mod_name = n, mod_type = t, mod_code_lines = k\<rparr>]\<rparr>
           in if k > 0 then
                (case Lines c 1 k of
                   Inl e \<Rightarrow> (Some e, r1)
                 | Inr code \<Rightarrow> (None, r1\<lparr>module_code := dict_set n code (module_code r1)\<rparr>))
              else (None, r1\<lparr>module_code := dict_set n ''(Empty Module)'' (module_code r1)\<rparr>)))))"

fun enumerate_components :: "component list \<Rightarrow> results \<Rightarrow> exn option \<times> results" where
  "enumerate_components [] r = (None, r)"
| "enumerate_components (c # cs) r =
     (case process_component c r of
        (Some e, r') \<Rightarrow> (Some e, r')
      | (None, r') \<Rightarrow> enumerate_components cs r')"

text \<open>The same loop, listing every value \<^verbatim>\<open>results\<close> takes: one entry after each
  assignment the body makes.\<close>

definition component_states :: "component \<Rightarrow> results \<Rightarrow> results list" where
  "component_states c r =
     (case Name c of
        Inl e \<Rightarrow> []
      | Inr n \<Rightarrow>
     (case Type c of
        Inl e \<Rightarrow> []
      | Inr t \<Rightarrow>
     (case CountOfLines c of
        Inl e \<Rightarrow> []
      | Inr k \<Rightarrow>
          (let r1 = r\<lparr>modules := modules r @ [\<lparr>mod_name = n, mod_type = t, mod_code_lines = k\<rparr>]\<rparr>
           in if k > 0 then
                (case Lines c 1 k of
                   Inl e \<Rightarrow> [r1]
                 | Inr code \<Rightarrow> [r1, r1\<lparr>module_code := dict_set n code (module_code r1)\<rparr>])
              else [r1, r1\<lparr>module_code := dict_set n ''(Empty Module)'' (module_code r1)\<rparr>]))))"

fun enumeration_states :: "component list \<Rightarrow> results \<Rightarrow> results list" where
  "enumeration_states [] r = []"
| "enumeration_states (c # cs) r =
     (case process_component c r of
        (Some e, r') \<Rightarrow> component_states c r
      | (None, r') \<Rightarrow> component_states c r @ enumeration_states cs r')"

text \<open>The \<^verbatim>\<open>try\<close> block of \<^verbatim>\<open>analyze_excel_file\<close>: the exception that leaves it, if
  any, the value of the variable \<^verbatim>\<open>excel\<close> (\<open>None\<close> until
  \<^verbatim>\<open>create_excel_instance\<close> has returned), and \<^verbatim>\<open>results\<close>.
  \<^verbatim>\<open>wb_vba.Close(SaveChanges=False)\<close> is the last statement of the block.\<close>

definition extract_body ::
  "world \<Rightarrow> string \<Rightarrow> results \<Rightarrow> (exn option \<times> excel_app option \<times> results) \<times> event list" where
  "extract_body w file_path r =
     (case create_excel_instance w of
        (Inl e, tr) \<Rightarrow> ((Some e, None, r), tr)
      | (Inr excel, tr) \<Rightarrow>
          (let p = os_path_abspath w file_path in
           case Workbooks_Open excel p of
             Inl e \<Rightarrow> ((Some e, Some excel, r), tr @ [WorkbooksOpen p True])
           | Inr wb_vba \<Rightarrow>
               (case VBComponents wb_vba of
                  Inl e \<Rightarrow> ((Some e, Some excel, r), tr @ [WorkbooksOpen p True])
                | Inr comps \<Rightarrow>
                    (case enumerate_components comps r of
                       (Some e, r') \<Rightarrow> ((Some e, Some excel, r'), tr @ [WorkbooksOpen p True])
                     | (None, r') \<Rightarrow>
                         ((Close wb_vba, Some excel, r'),
                          tr @ [WorkbooksOpen p True, WorkbookClose False])))))"

text \<open>The \<^verbatim>\<open>except Exception as e\<close> clause.\<close>

definition handle_vba_error :: "exn \<Rightarrow> results \<Rightarrow> results" where
  "handle_vba_error e r =
     (if contains ''Programmatic access to Visual Basic Project is not trusted'' (str e)
      then r\<lparr>vba_error := Some ''VBA access not enabled in Excel Trust Center''\<rparr>
      else r\<lparr>vba_error := Some (str e)\<rparr>)"

text \<open>The \<^verbatim>\<open>finally\<close> clause: nothing when \<^verbatim>\<open>excel\<close> is \<^verbatim>\<open>None\<close>; otherwise
  \<^verbatim>\<open>Quit\<close> (an exception from it is swallowed) and \<^verbatim>\<open>CoUninitialize\<close>.\<close>

definition release_session :: "excel_app option \<Rightarrow> event list" where
  "release_session excel = (case excel of None \<Rightarrow> [] | Some x \<Rightarrow> [AppQuit, CoUninitialize])"

definition extract_macros :: "world \<Rightarrow> string \<Rightarrow> results \<Rightarrow> results \<times> event list" where
  "extract_macros w file_path r =
     (case extract_body w file_path r of
        ((x, excel, r'), tr) \<Rightarrow>
          ((case x of None \<Rightarrow> r' | Some e \<Rightarrow> handle_vba_error e r'),
           tr @ release_session excel))"

section \<open>analyze_excel_file\<close>

definition initial_results :: "world \<Rightarrow> string \<Rightarrow> results" where
  "initial_results w file_path =
     \<lparr> filename = os_path_basename w file_path,
       full_path = file_path,
       analysis_date = strftime_date (now_analysis w),
       worksheets = [],
       modules = [],
       module_code = [],
       vba_error = None \<rparr>"

definition analyze_excel_file :: "world \<Rightarrow> string \<Rightarrow> (exn + results) \<times> event list" where
  "analyze_excel_file w file_path =
     (if \<not> os_path_exists w file_path
      then (Inl (FileNotFoundError (''File not found: '' @ file_path)), [])
      else
        (case load_workbook w file_path of
           Inl e \<Rightarrow> (Inl e, [LoadWorkbook file_path])
         | Inr wb \<Rightarrow>
             (case extract_macros w file_path (read_worksheets wb (initial_results w file_path)) of
                (r, tr) \<Rightarrow> (Inr r, LoadWorkbook file_path # tr))))"

section \<open>The report writer\<close>

text \<open>The file object \<^verbatim>\<open>f\<close> is the text written so far; \<^verbatim>\<open>f.write(s)\<close> appends
  \<open>s\<close>. The three loops of \<^verbatim>\<open>save_analysis_to_file\<close>: \<close>

fun write_sheets :: "sheet_info list \<Rightarrow> string \<Rightarrow> string" where
  "write_sheets [] f = f"
| "write_sheets (sheet # rest) f =
     write_sheets rest
       (f @ (nl @ ''Sheet Name: '' @ ws_name sheet @ nl)
          @ (''Has Content: '' @ str_bool (ws_has_content sheet) @ nl)
          @ (''Print Area: '' @ ws_print_area sheet @ nl))"

fun write_modules :: "module_info list \<Rightarrow> string \<Rightarrow> string" where
  "write_modules [] f = f"
| "write_modules (m # rest) f =
     write_modules rest
       (f @ (nl @ ''Module Name: '' @ mod_name m @ nl)
          @ (''Type: '' @ str_int (mod_type m) @ nl)
          @ (''Code Lines: '' @ str_int (mod_code_lines m) @ nl))"

fun write_module_code :: "(string \<times> string) list \<Rightarrow> string \<Rightarrow> string" where
  "write_module_code [] f = f"
| "write_module_code ((module_name, code) # rest) f =
     write_module_code rest
       (f @ (nl @ module_name @ nl)
          @ (replicate (length module_name) (CHR ''-'') @ nl)
          @ (code @ nl)
          @ nl)"

text \<open>Everything written between opening the file and closing it.\<close>

definition report_text :: "results \<Rightarrow> string" where
  "report_text r =
     (let f = [];
          f = f @ (replicate 80 (CHR ''='') @ nl);
          f = f @ (''Excel File Analysis Report'' @ nl);
          f = f @ (replicate 80 (CHR ''='') @ nl @ nl);
          f = f @ (''FILE INFORMATION'' @ nl);
          f = f @ (replicate 50 (CHR ''-'') @ nl);
          f = f @ (''Filename: '' @ filename r @ nl);
          f = f @ (''Full Path: '' @ full_path r @ nl);
          f = f @ (''Analysis Date: '' @ analysis_date r @ nl @ nl);
          f = f @ (''WORKSHEET INFORMATION'' @ nl);
          f = f @ (replicate 50 (CHR ''-'') @ nl);
          f = f @ (''Total Worksheets: '' @ str_nat (length (worksheets r)) @ nl);
          f = write_sheets (worksheets r) f;
          f = f @ nl
      in case vba_error r of
           Some err \<Rightarrow>
             (let f = f @ (''VBA MODULE INFORMATION'' @ nl);
                  f = f @ (replicate 50 (CHR ''-'') @ nl);
                  f = f @ (''Error: '' @ err @ nl @ nl)
              in f)
         | None \<Rightarrow>
             (let f = f @ (''VBA MODULE INFORMATION'' @ nl);
                  f = f @ (replicate 50 (CHR ''-'') @ nl);
                  f = f @ (''Total Modules: '' @ str_nat (length (modules r)) @ nl);
                  f = write_modules (modules r) f;
                  f = f @ nl;
                  f = f @ (''VBA MODULE CODE'' @ nl);
                  f = f @ (replicate 50 (CHR ''-'') @ nl);
                  f = write_module_code (module_code r) f
              in f))"

text \<open>\<^verbatim>\<open>save_analysis_to_file(results, output_dir=None)\<close>. The file is opened with
  \<^verbatim>\<open>encoding='utf-8'\<close>; the event records the path, the encoding and the text.\<close>

definition save_analysis_to_file ::
  "world \<Rightarrow> results \<Rightarrow> string option \<Rightarrow> (exn + string) \<times> event list" where
  "save_analysis_to_file w r output_dir =
     (let output_dir = (case output_dir of None \<Rightarrow> os_path_dirname w (full_path r) | Some d \<Rightarrow> d);
          timestamp = strftime_stamp (now_report w);
          base_name = fst (os_path_splitext w (filename r));
          output_file = os_path_join w output_dir (base_name @ ''_analysis_'' @ timestamp @ ''.txt'')
      in case open_write w output_file of
           Some e \<Rightarrow> (Inl e, [])
         | None \<Rightarrow> (Inr output_file, [WriteFile output_file ''utf-8'' (report_text r)]))"

section \<open>The orchestrator\<close>

text \<open>\<^verbatim>\<open>select_file\<close> returns what the dialog returns: the empty string when the user
  cancels.\<close>

definition select_file :: "world \<Rightarrow> string \<times> event list" where
  "select_file w = (askopenfilename w, [AskOpenFilename])"

text \<open>\<^verbatim>\<open>main\<close> returns nothing; the model gives the calls it made.\<close>

definition main :: "world \<Rightarrow> event list" where
  "main w =
     (case select_file w of
        (file_path, tr0) \<Rightarrow>
          if file_path = [] then tr0 @ [Print ''No file selected'']
          else
            (case analyze_excel_file w file_path of
               (Inl e, tr1) \<Rightarrow> tr0 @ tr1 @ [ShowError ''Error'' (''An error occurred: '' @ str e)]
             | (Inr r, tr1) \<Rightarrow>
                 (case save_analysis_to_file w r None of
                    (Inl e, tr2) \<Rightarrow>
                      tr0 @ tr1 @ tr2 @ [ShowError ''Error'' (''An error occurred: '' @ str e)]
                  | (Inr output_file, tr2) \<Rightarrow>
                      tr0 @ tr1 @ tr2
                      @ [ShowInfo ''Analysis Complete''
                           (''Analysis has been saved to:'' @ nl @ output_file)])))"

text \<open>Which calls open a workbook, and which write a file.\<close>

fun opens_workbook :: "event \<Rightarrow> bool" where
  "opens_workbook (LoadWorkbook p) = True"
| "opens_workbook (WorkbooksOpen p ro) = True"
| "opens_workbook ev = False"

fun writes_file :: "event \<Rightarrow> bool" where
  "writes_file (WriteFile p enc txt) = True"
| "writes_file ev = False"

section \<open>Notions used in the statements\<close>

text \<open>The components the loop of \<^verbatim>\<open>analyze_excel_file\<close> iterates over: present when
  \<^verbatim>\<open>create_excel_instance\<close> returns, the workbook opens and the macro project can be
  read.\<close>

definition session_components :: "world \<Rightarrow> string \<Rightarrow> component list option" where
  "session_components w file_path =
     (case fst (create_excel_instance w) of
        Inl e \<Rightarrow> None
      | Inr excel \<Rightarrow>
          (case Workbooks_Open excel (os_path_abspath w file_path) of
             Inl e \<Rightarrow> None
           | Inr wb_vba \<Rightarrow>
               (case VBComponents wb_vba of Inl e \<Rightarrow> None | Inr comps \<Rightarrow> Some comps)))"

text \<open>The exception that leaves the \<^verbatim>\<open>try\<close> block of \<^verbatim>\<open>analyze_excel_file\<close>
  and is caught by its handler, if any.\<close>

definition extraction_exception :: "world \<Rightarrow> string \<Rightarrow> exn option" where
  "extraction_exception w file_path =
     fst (fst (extract_body w file_path (initial_results w file_path)))"

text \<open>A section of the report starts with its title on a line of its own, followed by a
  line of fifty dashes.\<close>

definition heading :: "string \<Rightarrow> string" where
  "heading t = t @ nl @ replicate 50 (CHR ''-'') @ nl"

text \<open>The part of a document that follows the first occurrence of \<open>h\<close>, if \<open>h\<close>
  occurs; and whether the given headings occur in a document one after the other.\<close>

fun find_after :: "string \<Rightarrow> string \<Rightarrow> string option" where
  "find_after h [] = (if h = [] then Some [] else None)"
| "find_after h (c # cs) =
     (if prefix h (c # cs) then Some (drop (length h) (c # cs)) else find_after h cs)"

fun sections_in_order :: "string list \<Rightarrow> string \<Rightarrow> bool" where
  "sections_in_order [] doc = True"
| "sections_in_order (h # hs) doc =
     (case find_after h doc of None \<Rightarrow> False | Some rest \<Rightarrow> sections_in_order hs rest)"

text \<open>The values a Python \<^verbatim>\<open>datetime\<close> can hold.\<close>

definition valid_datetime :: "datetime \<Rightarrow> bool" where
  "valid_datetime t \<longleftrightarrow>
     1 \<le> year t \<and> year t \<le> 9999 \<and> 1 \<le> month t \<and> month t \<le> 12 \<and> 1 \<le> day t \<and> day t \<le> 31
     \<and> hour t < 24 \<and> minute t < 60 \<and> second t < 60"

text \<open>The shape \<^verbatim>\<open>YYYYMMDD_HHMMSS\<close>: eight digits, an underscore, six digits.\<close>

definition is_digit :: "char \<Rightarrow> bool" where
  "is_digit c \<longleftrightarrow> c \<in> set ''0123456789''"

definition stamp_shaped :: "string \<Rightarrow> bool" where
  "stamp_shaped s \<longleftrightarrow>
     length s = 15 \<and> list_all is_digit (take 8 s) \<and> s ! 8 = CHR ''_''
     \<and> list_all is_digit (drop 9 s)"

text \<open>The layout of the report, section by section: a banner, then the file information,
  the worksheet information with one block per worksheet, the macro-module information
  with one block per module (or the recorded error in its place), and the source listings
  with one block per entry of \<^verbatim>\<open>module_code\<close>, each giving the name, a line of dashes of
  the name's length and the stored text unchanged.\<close>

definition report_banner :: string where
  "report_banner =
     replicate 80 (CHR ''='') @ nl @ ''Excel File Analysis Report'' @ nl
     @ replicate 80 (CHR ''='') @ nl @ nl"

definition file_section :: "results \<Rightarrow> string" where
  "file_section r =
     heading ''FILE INFORMATION''
     @ ''Filename: '' @ filename r @ nl
     @ ''Full Path: '' @ full_path r @ nl
     @ ''Analysis Date: '' @ analysis_date r @ nl @ nl"

definition sheet_block :: "sheet_info \<Rightarrow> string" where
  "sheet_block s =
     nl @ ''Sheet Name: '' @ ws_name s @ nl
     @ ''Has Content: '' @ str_bool (ws_has_content s) @ nl
     @ ''Print Area: '' @ ws_print_area s @ nl"

definition worksheet_section :: "results \<Rightarrow> string" where
  "worksheet_section r =
     heading ''WORKSHEET INFORMATION''
     @ ''Total Worksheets: '' @ str_nat (length (worksheets r)) @ nl
     @ concat (map sheet_block (worksheets r)) @ nl"

definition module_block :: "module_info \<Rightarrow> string" where
  "module_block m =
     nl @ ''Module Name: '' @ mod_name m @ nl
     @ ''Type: '' @ str_int (mod_type m) @ nl
     @ ''Code Lines: '' @ str_int (mod_code_lines m) @ nl"

definition module_section :: "results \<Rightarrow> string" where
  "module_section r =
     heading ''VBA MODULE INFORMATION''
     @ ''Total Modules: '' @ str_nat (length (modules r)) @ nl
     @ concat (map module_block (modules r)) @ nl"

definition error_section :: "string \<Rightarrow> string" where
  "error_section e = heading ''VBA MODULE INFORMATION'' @ ''Error: '' @ e @ nl @ nl"

definition listing_block :: "string \<times> string \<Rightarrow> string" where
  "listing_block entry =
     nl @ fst entry @ nl
     @ replicate (length (fst entry)) (CHR ''-'') @ nl
     @ snd entry @ nl @ nl"

definition listing_section :: "results \<Rightarrow> string" where
  "listing_section r =
     heading ''VBA MODULE CODE'' @ concat (map listing_block (module_code r))"

section \<open>Sample worlds\<close>

text \<open>Concrete collaborators on which the theorems below are evaluated: one workbook,
  \<^verbatim>\<open>C:/data/book.xlsm\<close>, with two worksheets, and path functions that answer for
  that file. The worlds differ in what the automation interface does.\<close>

definition sample_sheets :: "sheet list" where
  "sample_sheets =
     [\<lparr> title = ''Sheet1'', calculate_dimension = ''A1:B2'', print_area = Some ''$A$1:$B$2'' \<rparr>,
      \<lparr> title = ''Sheet2'', calculate_dimension = ''A1:A1'', print_area = None \<rparr>]"

definition module1 :: component where
  "module1 =
     \<lparr> Name = Inr ''Module1'', Type = Inr 1, CountOfLines = Inr 2,
       Lines = (\<lambda>a b. Inr (''Sub Hello()'' @ [CHR 0x0D, CHR 0x0A] @ ''End Sub'')) \<rparr>"

definition this_workbook :: component where
  "this_workbook =
     \<lparr> Name = Inr ''ThisWorkbook'', Type = Inr 100, CountOfLines = Inr 0,
       Lines = (\<lambda>a b. Inr []) \<rparr>"

definition broken_module :: component where
  "broken_module =
     \<lparr> Name = Inr ''Module2'', Type = Inr 1, CountOfLines = Inr 5,
       Lines = (\<lambda>a b. Inl (CollaboratorError ''Call was rejected by callee.'')) \<rparr>"

definition sample_workbook :: "component list \<Rightarrow> vba_workbook" where
  "sample_workbook cs = \<lparr> VBComponents = Inr cs, Close = None \<rparr>"

definition sample_app :: "exn + vba_workbook \<Rightarrow> excel_app" where
  "sample_app wb =
     \<lparr> set_DisplayAlerts = None, set_Visible = None, Workbooks_Open = (\<lambda>p. wb), Quit = None \<rparr>"

definition sample_world :: "exn + excel_app \<Rightarrow> world" where
  "sample_world app =
     \<lparr> os_path_exists = (\<lambda>p. p = ''C:/data/book.xlsm''),
       os_path_basename = (\<lambda>p. if p = ''C:/data/book.xlsm'' then ''book.xlsm'' else p),
       os_path_dirname = (\<lambda>p. if p = ''C:/data/book.xlsm'' then ''C:/data'' else []),
       os_path_abspath = (\<lambda>p. p),
       os_path_splitext = (\<lambda>p. if p = ''book.xlsm'' then (''book'', ''.xlsm'') else (p, [])),
       os_path_join = (\<lambda>d p. d @ [CHR 0x5C] @ p),
       now_analysis = \<lparr> year = 2024, month = 3, day = 9, hour = 14, minute = 5, second = 7 \<rparr>,
       now_report = \<lparr> year = 2024, month = 3, day = 9, hour = 14, minute = 5, second = 8 \<rparr>,
       askopenfilename = ''C:/data/book.xlsm'',
       load_workbook = (\<lambda>p. Inr sample_sheets),
       Dispatch = app,
       open_write = (\<lambda>p. None) \<rparr>"

text \<open>Macro access permitted, two components.\<close>

definition world_ok :: world where
  "world_ok = sample_world (Inr (sample_app (Inr (sample_workbook [module1, this_workbook]))))"

text \<open>The automation interface cannot be started.\<close>

definition world_no_excel :: world where
  "world_no_excel = sample_world (Inl (CollaboratorError ''Invalid class string''))"

text \<open>The application starts, and refuses the first property assignment.\<close>

definition world_no_alerts :: world where
  "world_no_alerts =
     sample_world (Inr ((sample_app (Inr (sample_workbook [])))
       \<lparr> set_DisplayAlerts := Some (CollaboratorError ''Call was rejected by callee.'') \<rparr>))"

text \<open>The host forbids access to the macro project.\<close>

definition world_untrusted :: world where
  "world_untrusted =
     sample_world (Inr (sample_app (Inr
       \<lparr> VBComponents =
           Inl (CollaboratorError
             ''Programmatic access to Visual Basic Project is not trusted''),
         Close = None \<rparr>)))"

text \<open>The text of the second of three components cannot be read.\<close>

definition world_broken :: world where
  "world_broken =
     sample_world (Inr (sample_app (Inr (sample_workbook [module1, broken_module, this_workbook]))))"

text \<open>The user cancels the dialog.\<close>

definition world_cancel :: world where
  "world_cancel = world_ok \<lparr> askopenfilename := [] \<rparr>"

text \<open>What \<open>analyze_excel_file\<close> returns when the host forbids access to the macro
  project.\<close>

definition untrusted_result :: results where
  "untrusted_result =
     \<lparr> filename = ''book.xlsm'',
       full_path = ''C:/data/book.xlsm'',
       analysis_date = ''2024-03-09 14:05:07'',
       worksheets =
         [\<lparr> ws_name = ''Sheet1'', ws_has_content = True, ws_print_area = ''$A$1:$B$2'' \<rparr>,
          \<lparr> ws_name = ''Sheet2'', ws_has_content = False, ws_print_area = ''Not Set'' \<rparr>],
       modules = [],
       module_code = [],
       vba_error = Some ''VBA access not enabled in Excel Trust Center'' \<rparr>"

section \<open>Auxiliary facts\<close>

lemma read_worksheets_eq:
  "read_worksheets shs r = r\<lparr>worksheets := worksheets r @ map make_sheet_info shs\<rparr>"
  by (induction shs arbitrary: r) simp_all

lemma process_component_worksheets:
  "worksheets (snd (process_component c r)) = worksheets r"
  by (simp add: process_component_def Let_def split: sum.splits)

lemma enumerate_components_worksheets:
  "worksheets (snd (enumerate_components cs r)) = worksheets r"
proof (induction cs arbitrary: r)
  case Nil
  show ?case by simp
next
  case (Cons c cs)
  show ?case
  proof (cases "process_component c r")
    case (Pair x r')
    have w: "worksheets r' = worksheets r"
      using process_component_worksheets [of c r] Pair by simp
    show ?thesis
    proof (cases x)
      case None
      with Pair Cons.IH [of r'] w show ?thesis by simp
    next
      case (Some e)
      with Pair w show ?thesis by simp
    qed
  qed
qed

lemma enumerate_components_worksheets':
  "enumerate_components cs r = (x, r') \<Longrightarrow> worksheets r' = worksheets r"
  using enumerate_components_worksheets [of cs r] by simp

lemma extract_body_worksheets:
  "worksheets (snd (snd (fst (extract_body w p r)))) = worksheets r"
  by (auto simp: extract_body_def Let_def enumerate_components_worksheets'
      split: prod.splits sum.splits option.splits)

lemma handle_vba_error_worksheets:
  "worksheets (handle_vba_error e r) = worksheets r"
  by (simp add: handle_vba_error_def)

lemma extract_macros_worksheets:
  "worksheets (fst (extract_macros w p r)) = worksheets r"
  using extract_body_worksheets [of w p r]
  by (auto simp: extract_macros_def handle_vba_error_worksheets split: prod.splits option.splits)

lemma analyze_returns:
  assumes "os_path_exists w p" and "load_workbook w p = Inr shs"
  shows "analyze_excel_file w p =
           (Inr (fst (extract_macros w p (read_worksheets shs (initial_results w p)))),
            LoadWorkbook p # snd (extract_macros w p (read_worksheets shs (initial_results w p))))"
  using assms by (simp add: analyze_excel_file_def split: prod.splits)

lemmas world_defs = sample_world_def sample_app_def sample_workbook_def sample_sheets_def
  module1_def this_workbook_def broken_module_def

lemma dict_keys_dict_set: "dict_keys (dict_set k v d) = insert k (dict_keys d)"
  by (induction d) (auto simp: dict_keys_def)

lemma map_of_dict_set: "map_of (dict_set k v d) = (map_of d)(k \<mapsto> v)"
  by (induction d) auto

lemma process_component_cases:
  assumes "process_component c r = (x, r')"
  obtains
    (early) e where "x = Some e" and "r' = r"
  | (lines) e n t k where "x = Some e"
      and "Name c = Inr n" and "Type c = Inr t" and "CountOfLines c = Inr k"
      and "r' = r\<lparr>modules := modules r @ [\<lparr>mod_name = n, mod_type = t, mod_code_lines = k\<rparr>]\<rparr>"
  | (stored) n t k code where "x = None"
      and "Name c = Inr n" and "Type c = Inr t" and "CountOfLines c = Inr k"
      and "if k > 0 then Lines c 1 k = Inr code else code = ''(Empty Module)''"
      and "r' = r\<lparr>modules := modules r @ [\<lparr>mod_name = n, mod_type = t, mod_code_lines = k\<rparr>],
                   module_code := dict_set n code (module_code r)\<rparr>"
  using assms
  by (auto simp: process_component_def Let_def split: sum.splits if_splits)

lemma process_component_exn_indep:
  "fst (process_component c r) = fst (process_component c r0)"
  by (simp add: process_component_def Let_def split: sum.splits)

lemma enumerate_components_exn_indep:
  "fst (enumerate_components cs r) = fst (enumerate_components cs r0)"
proof (induction cs arbitrary: r r0)
  case Nil
  show ?case by simp
next
  case (Cons c cs)
  obtain x r1 where a: "process_component c r = (x, r1)" by (cases "process_component c r")
  obtain y r2 where b: "process_component c r0 = (y, r2)" by (cases "process_component c r0")
  have xy: "x = y" using process_component_exn_indep [of c r r0] a b by simp
  show ?case
    using a b xy Cons.IH [of r1 r2] by (cases y) simp_all
qed

lemma extract_body_exn_eq:
  "fst (fst (extract_body w p r)) =
     (case create_excel_instance w of
        (Inl e, tr) \<Rightarrow> Some e
      | (Inr excel, tr) \<Rightarrow>
          (case Workbooks_Open excel (os_path_abspath w p) of
             Inl e \<Rightarrow> Some e
           | Inr wb_vba \<Rightarrow>
               (case VBComponents wb_vba of
                  Inl e \<Rightarrow> Some e
                | Inr comps \<Rightarrow>
                    (case fst (enumerate_components comps r) of
                       Some e \<Rightarrow> Some e
                     | None \<Rightarrow> Close wb_vba))))"
  by (simp add: extract_body_def Let_def split: prod.splits sum.splits option.splits)

lemma extract_body_exn:
  "fst (fst (extract_body w p r)) = extraction_exception w p"
  by (simp add: extraction_exception_def extract_body_exn_eq
      enumerate_components_exn_indep [of _ r "initial_results w p"]
      split: prod.splits sum.splits)

text \<open>What the loop leaves in \<open>modules\<close>: the records of the first components, in
  order; all of them when no exception interrupts it.\<close>

lemma enumerate_components_modules:
  assumes "enumerate_components cs r = (x, r')"
  shows "\<exists>ms. modules r' = modules r @ ms \<and> length ms \<le> length cs
           \<and> (x = None \<longrightarrow> length ms = length cs)
           \<and> (\<forall>i < length ms. Name (cs ! i) = Inr (mod_name (ms ! i))
                 \<and> Type (cs ! i) = Inr (mod_type (ms ! i))
                 \<and> CountOfLines (cs ! i) = Inr (mod_code_lines (ms ! i)))"
  using assms
proof (induction cs arbitrary: r)
  case Nil
  then show ?case by simp
next
  case (Cons c cs)
  obtain y r1 where pc: "process_component c r = (y, r1)" by (cases "process_component c r")
  from pc show ?case
  proof (cases rule: process_component_cases)
    case (early e)
    with pc Cons.prems have "r' = r" "x = Some e" by simp_all
    then show ?thesis by simp
  next
    case (lines e n t k)
    with pc Cons.prems have "r' = r1" "x = Some e" by simp_all
    with lines show ?thesis by simp
  next
    case (stored n t k code)
    with pc Cons.prems have rest: "enumerate_components cs r1 = (x, r')" by simp
    from Cons.IH [OF rest] obtain ms where ms: "modules r' = modules r1 @ ms"
      "length ms \<le> length cs" "x = None \<longrightarrow> length ms = length cs"
      "\<forall>i < length ms. Name (cs ! i) = Inr (mod_name (ms ! i))
                 \<and> Type (cs ! i) = Inr (mod_type (ms ! i))
                 \<and> CountOfLines (cs ! i) = Inr (mod_code_lines (ms ! i))"
      by blast
    let ?m = "\<lparr>mod_name = n, mod_type = t, mod_code_lines = k\<rparr>"
    have "modules r' = modules r @ (?m # ms)" using ms(1) stored by simp
    moreover have "length (?m # ms) \<le> length (c # cs)" using ms(2) by simp
    moreover have "x = None \<longrightarrow> length (?m # ms) = length (c # cs)" using ms(3) by simp
    moreover have "\<forall>i < length (?m # ms). Name ((c # cs) ! i) = Inr (mod_name ((?m # ms) ! i))
                 \<and> Type ((c # cs) ! i) = Inr (mod_type ((?m # ms) ! i))
                 \<and> CountOfLines ((c # cs) ! i) = Inr (mod_code_lines ((?m # ms) ! i))"
    proof (intro allI impI)
      fix i assume "i < length (?m # ms)"
      then show "Name ((c # cs) ! i) = Inr (mod_name ((?m # ms) ! i))
                 \<and> Type ((c # cs) ! i) = Inr (mod_type ((?m # ms) ! i))
                 \<and> CountOfLines ((c # cs) ! i) = Inr (mod_code_lines ((?m # ms) ! i))"
        using ms(4) stored by (cases i) simp_all
    qed
    ultimately show ?thesis by blast
  qed
qed

text \<open>The keys of \<open>module_code\<close> against the names in \<open>modules\<close>: equal after every
  complete pass of the body; when the text of a component cannot be read, its record is
  already in \<open>modules\<close> and its name is not yet a key.\<close>

lemma enumerate_components_keys:
  assumes "enumerate_components cs r = (x, r')"
    and "dict_keys (module_code r) = set (map mod_name (modules r))"
  shows "(x = None \<longrightarrow> dict_keys (module_code r') = set (map mod_name (modules r')))
       \<and> dict_keys (module_code r') \<subseteq> set (map mod_name (modules r'))
       \<and> set (map mod_name (butlast (modules r'))) \<subseteq> dict_keys (module_code r')"
  using assms
proof (induction cs arbitrary: r)
  case Nil
  then show ?case by (auto dest: in_set_butlastD)
next
  case (Cons c cs)
  obtain y r1 where pc: "process_component c r = (y, r1)" by (cases "process_component c r")
  from pc show ?case
  proof (cases rule: process_component_cases)
    case (early e)
    with pc Cons.prems have "r' = r" "x = Some e" by simp_all
    with Cons.prems(2) show ?thesis by (auto dest: in_set_butlastD)
  next
    case (lines e n t k)
    with pc Cons.prems have "r' = r1" "x = Some e" by simp_all
    with lines Cons.prems(2) show ?thesis by auto
  next
    case (stored n t k code)
    with pc Cons.prems have rest: "enumerate_components cs r1 = (x, r')" by simp
    have "dict_keys (module_code r1) = set (map mod_name (modules r1))"
      using stored Cons.prems(2) by (simp add: dict_keys_dict_set)
    from Cons.IH [OF rest this] show ?thesis .
  qed
qed

lemma extract_body_results:
  "snd (snd (fst (extract_body w p r))) =
     (case session_components w p of None \<Rightarrow> r | Some comps \<Rightarrow> snd (enumerate_components comps r))"
  by (simp add: extract_body_def session_components_def Let_def
      split: prod.splits sum.splits option.splits)

lemma no_exception_components:
  assumes "extraction_exception w p = None"
  shows "\<exists>comps. session_components w p = Some comps \<and> fst (enumerate_components comps r) = None"
proof -
  have "fst (fst (extract_body w p r)) = None"
    using assms by (simp add: extract_body_exn)
  then show ?thesis
    by (auto simp: extract_body_exn_eq session_components_def
        split: prod.splits sum.splits option.splits)
qed

lemma extract_macros_results:
  "fst (extract_macros w p r) =
     (case extraction_exception w p of
        None \<Rightarrow> snd (snd (fst (extract_body w p r)))
      | Some e \<Rightarrow> handle_vba_error e (snd (snd (fst (extract_body w p r)))))"
  using extract_body_exn [of w p r]
  by (cases "extract_body w p r") (auto simp: extract_macros_def split: option.splits)


lemma handle_vba_error_text:
  "vba_error (handle_vba_error e r) =
     Some (if contains ''Programmatic access to Visual Basic Project is not trusted'' (str e)
           then ''VBA access not enabled in Excel Trust Center'' else str e)"
  by (simp add: handle_vba_error_def)

lemma process_component_vba_error:
  "vba_error (snd (process_component c r)) = vba_error r"
  by (simp add: process_component_def Let_def split: sum.splits)

lemma enumerate_components_vba_error:
  "vba_error (snd (enumerate_components cs r)) = vba_error r"
proof (induction cs arbitrary: r)
  case Nil
  show ?case by simp
next
  case (Cons c cs)
  obtain y r1 where pc: "process_component c r = (y, r1)" by (cases "process_component c r")
  have "vba_error r1 = vba_error r"
    using process_component_vba_error [of c r] pc by simp
  then show ?case
    using pc Cons.IH [of r1] by (cases y) simp_all
qed

lemma extract_body_vba_error:
  "vba_error (snd (snd (fst (extract_body w p r)))) = vba_error r"
  by (simp add: extract_body_results enumerate_components_vba_error split: option.splits)

lemma main_continues:
  assumes "askopenfilename w = p" and "p \<noteq> []"
    and "analyze_excel_file w p = (Inr r, tr)"
    and "fst (save_analysis_to_file w r None) = Inr out"
  shows "main w = [AskOpenFilename] @ tr @ [WriteFile out ''utf-8'' (report_text r),
           ShowInfo ''Analysis Complete'' (''Analysis has been saved to:'' @ nl @ out)]"
  using assms
  by (auto simp: main_def select_file_def save_analysis_to_file_def Let_def
      split: option.splits)

lemma component_cases:
  obtains
    (early) e where "process_component c r = (Some e, r)" and "component_states c r = []"
  | (lines) e m where
      "process_component c r = (Some e, r\<lparr>modules := modules r @ [m]\<rparr>)"
      and "component_states c r = [r\<lparr>modules := modules r @ [m]\<rparr>]"
  | (stored) m code where
      "process_component c r =
         (None, r\<lparr>modules := modules r @ [m],
                  module_code := dict_set (mod_name m) code (module_code r)\<rparr>)"
      and "component_states c r =
         [r\<lparr>modules := modules r @ [m]\<rparr>,
          r\<lparr>modules := modules r @ [m],
            module_code := dict_set (mod_name m) code (module_code r)\<rparr>]"
proof (cases "Name c")
  case (Inl e)
  then show ?thesis
    using that(1) [of e] by (simp add: process_component_def component_states_def Let_def)
next
  case n: (Inr n)
  show ?thesis
  proof (cases "Type c")
    case (Inl e)
    then show ?thesis
      using n that(1) [of e] by (simp add: process_component_def component_states_def Let_def)
  next
    case t: (Inr t)
    show ?thesis
    proof (cases "CountOfLines c")
      case (Inl e)
      then show ?thesis
        using n t that(1) [of e] by (simp add: process_component_def component_states_def Let_def)
    next
      case k: (Inr k)
      let ?m = "\<lparr>mod_name = n, mod_type = t, mod_code_lines = k\<rparr>"
      show ?thesis
      proof (cases "k > 0")
        case False
        then show ?thesis
          using n t k that(3) [of ?m "''(Empty Module)''"]
          by (simp add: process_component_def component_states_def Let_def)
      next
        case True
        show ?thesis
        proof (cases "Lines c 1 k")
          case (Inl e)
          then show ?thesis
            using n t k True that(2) [of e ?m]
            by (simp add: process_component_def component_states_def Let_def)
        next
          case (Inr code)
          then show ?thesis
            using n t k True that(3) [of ?m code]
            by (simp add: process_component_def component_states_def Let_def)
        qed
      qed
    qed
  qed
qed

lemma component_states_invariant:
  assumes "dict_keys (module_code r) \<subseteq> set (map mod_name (modules r))"
    and "s \<in> set (component_states c r)"
  shows "dict_keys (module_code s) \<subseteq> set (map mod_name (modules s))"
proof (cases c r rule: component_cases)
  case (early e)
  with assms(2) show ?thesis by simp
next
  case (lines e m)
  with assms show ?thesis by auto
next
  case (stored m code)
  with assms show ?thesis by (auto simp: dict_keys_dict_set)
qed

lemma process_component_last:
  "snd (process_component c r) = last (r # component_states c r)"
  by (simp add: process_component_def component_states_def Let_def split: sum.splits)

lemma process_component_invariant:
  assumes "dict_keys (module_code r) \<subseteq> set (map mod_name (modules r))"
  shows "dict_keys (module_code (snd (process_component c r)))
           \<subseteq> set (map mod_name (modules (snd (process_component c r))))"
proof (cases "component_states c r = []")
  case True
  then show ?thesis using assms by (simp add: process_component_last)
next
  case False
  then have "last (r # component_states c r) \<in> set (component_states c r)"
    by simp
  then show ?thesis
    using component_states_invariant [OF assms] by (simp add: process_component_last)
qed

lemma enumeration_states_invariant:
  assumes "dict_keys (module_code r) \<subseteq> set (map mod_name (modules r))"
    and "s \<in> set (enumeration_states cs r)"
  shows "dict_keys (module_code s) \<subseteq> set (map mod_name (modules s))"
  using assms
proof (induction cs arbitrary: r)
  case Nil
  then show ?case by simp
next
  case (Cons c cs)
  obtain y r1 where pc: "process_component c r = (y, r1)" by (cases "process_component c r")
  have inv1: "dict_keys (module_code r1) \<subseteq> set (map mod_name (modules r1))"
    using process_component_invariant [OF Cons.prems(1), of c] pc by simp
  show ?case
  proof (cases y)
    case (Some e)
    with pc Cons.prems(2) have "s \<in> set (component_states c r)" by simp
    then show ?thesis by (rule component_states_invariant [OF Cons.prems(1)])
  next
    case None
    with pc Cons.prems(2) have "s \<in> set (component_states c r) \<or> s \<in> set (enumeration_states cs r1)"
      by simp
    then show ?thesis
    proof
      assume "s \<in> set (component_states c r)"
      then show ?thesis by (rule component_states_invariant [OF Cons.prems(1)])
    next
      assume "s \<in> set (enumeration_states cs r1)"
      then show ?thesis by (rule Cons.IH [OF inv1])
    qed
  qed
qed

lemma enumerate_components_last:
  "snd (enumerate_components cs r) = last (r # enumeration_states cs r)"
proof (induction cs arbitrary: r)
  case Nil
  show ?case by simp
next
  case (Cons c cs)
  obtain y r1 where pc: "process_component c r = (y, r1)" by (cases "process_component c r")
  have r1: "r1 = last (r # component_states c r)"
    using process_component_last [of c r] pc by simp
  show ?case
  proof (cases y)
    case (Some e)
    with pc r1 show ?thesis by simp
  next
    case None
    have "snd (enumerate_components (c # cs) r) = last (r1 # enumeration_states cs r1)"
      using pc None Cons.IH [of r1] by simp
    also have "\<dots> = last (r # component_states c r @ enumeration_states cs r1)"
      using r1 by (cases "enumeration_states cs r1 = []") (simp_all add: last_append)
    finally show ?thesis using pc None by simp
  qed
qed

lemma enumerate_components_lookup_frame:
  assumes "enumerate_components cs r = (x, r')" and "Inr n \<notin> set (map Name cs)"
  shows "map_of (module_code r') n = map_of (module_code r) n"
  using assms
proof (induction cs arbitrary: r)
  case Nil
  then show ?case by simp
next
  case (Cons c cs)
  obtain y r1 where pc: "process_component c r = (y, r1)" by (cases "process_component c r")
  from pc show ?case
  proof (cases rule: process_component_cases)
    case (early e)
    with pc Cons.prems show ?thesis by simp
  next
    case (lines e n' t k)
    with pc Cons.prems have "r' = r1" by simp
    with lines show ?thesis by simp
  next
    case (stored n' t k code)
    with pc Cons.prems have rest: "enumerate_components cs r1 = (x, r')" by simp
    have "n' \<noteq> n" using stored(2) Cons.prems(2) by auto
    then have "map_of (module_code r1) n = map_of (module_code r) n"
      using stored by (simp add: map_of_dict_set)
    moreover have "map_of (module_code r') n = map_of (module_code r1) n"
      using Cons.IH [OF rest] Cons.prems(2) by simp
    ultimately show ?thesis by simp
  qed
qed

lemma enumerate_components_lookup:
  assumes "enumerate_components cs r = (None, r')" and "i < length cs"
    and "\<forall>j < length cs. i < j \<longrightarrow> Name (cs ! j) \<noteq> Name (cs ! i)"
  shows "\<exists>n k. Name (cs ! i) = Inr n \<and> CountOfLines (cs ! i) = Inr k
           \<and> (if k > 0
               then \<exists>code. Lines (cs ! i) 1 k = Inr code \<and> map_of (module_code r') n = Some code
               else map_of (module_code r') n = Some ''(Empty Module)'')"
  using assms
proof (induction cs arbitrary: r i)
  case Nil
  then show ?case by simp
next
  case (Cons c cs)
  obtain y r1 where pc: "process_component c r = (y, r1)" by (cases "process_component c r")
  from pc show ?case
  proof (cases rule: process_component_cases)
    case (early e)
    with pc Cons.prems(1) show ?thesis by simp
  next
    case (lines e n t k)
    with pc Cons.prems(1) show ?thesis by simp
  next
    case (stored n t k code)
    with pc Cons.prems(1) have rest: "enumerate_components cs r1 = (None, r')" by simp
    show ?thesis
    proof (cases i)
      case 0
      have "Inr n \<notin> set (map Name cs)"
      proof
        assume "Inr n \<in> set (map Name cs)"
        then obtain j where j: "j < length cs" "Name (cs ! j) = Inr n"
          by (auto simp: in_set_conv_nth)
        from Cons.prems(3) [rule_format, of "Suc j"] j 0 stored(2) show False by simp
      qed
      from enumerate_components_lookup_frame [OF rest this]
      have "map_of (module_code r') n = Some code"
        using stored by (simp add: map_of_dict_set)
      with stored 0 show ?thesis by (auto split: if_splits)
    next
      case (Suc i')
      have a: "i' < length cs" using Cons.prems(2) Suc by simp
      have b: "\<forall>j < length cs. i' < j \<longrightarrow> Name (cs ! j) \<noteq> Name (cs ! i')"
      proof (intro allI impI)
        fix j assume "j < length cs" "i' < j"
        with Cons.prems(3) [rule_format, of "Suc j"] Suc
        show "Name (cs ! j) \<noteq> Name (cs ! i')" by simp
      qed
      have eq: "(c # cs) ! i = cs ! i'" using Suc by simp
      from Cons.IH [OF rest a b] show ?thesis unfolding eq .
    qed
  qed
qed

lemma reader_results_fields:
  "modules (read_worksheets shs (initial_results w p)) = []"
  "module_code (read_worksheets shs (initial_results w p)) = []"
  "vba_error (read_worksheets shs (initial_results w p)) = None"
  "worksheets (read_worksheets shs (initial_results w p)) = map make_sheet_info shs"
  by (simp_all add: read_worksheets_eq initial_results_def)

lemmas run_defs = analyze_excel_file_def extract_macros_def extract_body_def
  create_excel_instance_def release_session_def process_component_def handle_vba_error_def
  initial_results_def make_sheet_info_def Let_def

text \<open>Timestamps.\<close>

lemma digit_char_is_digit: "is_digit (digit_char d)"
proof -
  have "d mod 10 < length ''0123456789''" by simp
  then have "''0123456789'' ! (d mod 10) \<in> set ''0123456789''" by (rule nth_mem)
  then show ?thesis by (simp add: is_digit_def digit_char_def)
qed

lemma digit_char_0: "digit_char 0 = CHR ''0''"
  by (simp add: digit_char_def)

lemma str_nat_one_digit: "n < 10 \<Longrightarrow> str_nat n = [digit_char n]"
  by (simp add: str_nat.simps)

lemma str_nat_two_digits:
  assumes "10 \<le> n" and "n < 100"
  shows "str_nat n = [digit_char (n div 10), digit_char n]"
proof -
  have "n div 10 < 10" using assms by simp
  then have "str_nat (n div 10) = [digit_char (n div 10)]" by (rule str_nat_one_digit)
  then show ?thesis using assms(1) by (simp add: str_nat.simps [of n])
qed

lemma replicate_two: "replicate 2 c = [c, c]"
  by (simp add: numeral_2_eq_2)

lemma replicate_three: "replicate 3 c = [c, c, c]"
  by (simp add: numeral_3_eq_3)

lemma pad_two:
  assumes "n < 100"
  shows "pad 2 (str_nat n) = [digit_char (n div 10), digit_char n]"
proof (cases "n < 10")
  case True
  then show ?thesis by (simp add: pad_def str_nat_one_digit digit_char_0)
next
  case False
  then show ?thesis using assms by (simp add: pad_def str_nat_two_digits)
qed

lemma pad_four:
  assumes "n < 10000"
  shows "pad 4 (str_nat n) =
           [digit_char (n div 1000), digit_char (n div 100), digit_char (n div 10), digit_char n]"
proof -
  consider "n < 10" | "10 \<le> n" "n < 100" | "100 \<le> n" "n < 1000" | "1000 \<le> n"
    by linarith
  then show ?thesis
  proof cases
    case 1
    then show ?thesis by (simp add: pad_def str_nat_one_digit digit_char_0 replicate_three)
  next
    case 2
    then show ?thesis by (simp add: pad_def str_nat_two_digits digit_char_0 replicate_two)
  next
    case 3
    then have "10 \<le> n div 10" "n div 10 < 100" by simp_all
    then have "str_nat (n div 10) = [digit_char (n div 10 div 10), digit_char (n div 10)]"
      by (rule str_nat_two_digits)
    moreover have "n div 10 div 10 = n div 100" by (simp add: div_mult2_eq [symmetric])
    moreover have "n div 1000 = 0" using 3 by simp
    ultimately show ?thesis using 3 by (simp add: pad_def str_nat.simps [of n] digit_char_0)
  next
    case 4
    then have a: "10 \<le> n div 100" "n div 100 < 100" using assms by simp_all
    have "str_nat (n div 100) = [digit_char (n div 100 div 10), digit_char (n div 100)]"
      using a by (rule str_nat_two_digits)
    moreover have "n div 100 div 10 = n div 1000" by (simp add: div_mult2_eq [symmetric])
    moreover have "n div 10 div 10 = n div 100" by (simp add: div_mult2_eq [symmetric])
    moreover have "\<not> n div 10 < 10" using 4 by simp
    ultimately show ?thesis using 4
      by (simp add: pad_def str_nat.simps [of n] str_nat.simps [of "n div 10"])
  qed
qed

lemma strftime_stamp_digits:
  assumes "valid_datetime t"
  shows "strftime_stamp t =
           [digit_char (year t div 1000), digit_char (year t div 100), digit_char (year t div 10),
            digit_char (year t), digit_char (month t div 10), digit_char (month t),
            digit_char (day t div 10), digit_char (day t), CHR ''_'',
            digit_char (hour t div 10), digit_char (hour t),
            digit_char (minute t div 10), digit_char (minute t),
            digit_char (second t div 10), digit_char (second t)]"
proof -
  from assms have "year t < 10000" "month t < 100" "day t < 100" "hour t < 100"
    "minute t < 100" "second t < 100"
    by (simp_all add: valid_datetime_def)
  then show ?thesis
    by (simp add: strftime_stamp_def pad_two pad_four)
qed

lemma strftime_stamp_shaped:
  "valid_datetime t \<Longrightarrow> stamp_shaped (strftime_stamp t)"
  by (simp add: strftime_stamp_digits stamp_shaped_def digit_char_is_digit)

lemma process_component_path_fields:
  "filename (snd (process_component c r)) = filename r
   \<and> full_path (snd (process_component c r)) = full_path r"
  by (simp add: process_component_def Let_def split: sum.splits)

lemma enumerate_components_path_fields:
  "filename (snd (enumerate_components cs r)) = filename r
   \<and> full_path (snd (enumerate_components cs r)) = full_path r"
proof (induction cs arbitrary: r)
  case Nil
  show ?case by simp
next
  case (Cons c cs)
  obtain y r1 where pc: "process_component c r = (y, r1)" by (cases "process_component c r")
  have "filename r1 = filename r \<and> full_path r1 = full_path r"
    using process_component_path_fields [of c r] pc by simp
  then show ?case
    using pc Cons.IH [of r1] by (cases y) simp_all
qed

lemma analyze_path_fields:
  assumes "fst (analyze_excel_file w p) = Inr r"
  shows "filename r = os_path_basename w p \<and> full_path r = p"
proof -
  obtain shs where ex: "os_path_exists w p" and ld: "load_workbook w p = Inr shs"
    using assms by (auto simp: analyze_excel_file_def split: if_splits sum.splits prod.splits)
  let ?init = "read_worksheets shs (initial_results w p)"
  have init: "filename ?init = os_path_basename w p \<and> full_path ?init = p"
    by (simp add: read_worksheets_eq initial_results_def)
  have body: "filename (snd (snd (fst (extract_body w p ?init)))) = os_path_basename w p
              \<and> full_path (snd (snd (fst (extract_body w p ?init)))) = p"
    using init enumerate_components_path_fields [of _ ?init]
    by (simp add: extract_body_results split: option.splits)
  have "r = fst (extract_macros w p ?init)"
    using analyze_returns [OF ex ld] assms by simp
  then show ?thesis
    using body by (simp add: extract_macros_results handle_vba_error_def split: option.splits)
qed

text \<open>The report: each loop only appends to what is already written.\<close>

lemma write_sheets_append: "write_sheets ss f = f @ write_sheets ss []"
proof (induction ss arbitrary: f)
  case Nil
  show ?case by simp
next
  case (Cons s ss)
  let ?b = "(nl @ ''Sheet Name: '' @ ws_name s @ nl)
          @ (''Has Content: '' @ str_bool (ws_has_content s) @ nl)
          @ (''Print Area: '' @ ws_print_area s @ nl)"
  have "write_sheets (s # ss) f = write_sheets ss (f @ ?b)" by simp
  also have "\<dots> = (f @ ?b) @ write_sheets ss []" by (rule Cons.IH)
  also have "\<dots> = f @ (?b @ write_sheets ss [])" by simp
  also have "?b @ write_sheets ss [] = write_sheets ss ?b" by (rule Cons.IH [symmetric])
  also have "write_sheets ss ?b = write_sheets (s # ss) []" by simp
  finally show ?case .
qed

lemma write_modules_append: "write_modules ms f = f @ write_modules ms []"
proof (induction ms arbitrary: f)
  case Nil
  show ?case by simp
next
  case (Cons m ms)
  let ?b = "(nl @ ''Module Name: '' @ mod_name m @ nl)
          @ (''Type: '' @ str_int (mod_type m) @ nl)
          @ (''Code Lines: '' @ str_int (mod_code_lines m) @ nl)"
  have "write_modules (m # ms) f = write_modules ms (f @ ?b)" by simp
  also have "\<dots> = (f @ ?b) @ write_modules ms []" by (rule Cons.IH)
  also have "\<dots> = f @ (?b @ write_modules ms [])" by simp
  also have "?b @ write_modules ms [] = write_modules ms ?b" by (rule Cons.IH [symmetric])
  also have "write_modules ms ?b = write_modules (m # ms) []" by simp
  finally show ?case .
qed

lemma write_module_code_append: "write_module_code d f = f @ write_module_code d []"
proof (induction d arbitrary: f)
  case Nil
  show ?case by simp
next
  case (Cons kv d)
  obtain k v where kv: "kv = (k, v)" by (cases kv)
  let ?b = "(nl @ k @ nl) @ (replicate (length k) (CHR ''-'') @ nl) @ (v @ nl) @ nl"
  have "write_module_code (kv # d) f = write_module_code d (f @ ?b)" by (simp add: kv)
  also have "\<dots> = (f @ ?b) @ write_module_code d []" by (rule Cons.IH)
  also have "\<dots> = f @ (?b @ write_module_code d [])" by simp
  also have "?b @ write_module_code d [] = write_module_code d ?b" by (rule Cons.IH [symmetric])
  also have "write_module_code d ?b = write_module_code (kv # d) []" by (simp add: kv)
  finally show ?case .
qed

lemma suffix_drop:
  assumes "suffix b xs" and "n + length b \<le> length xs"
  shows "suffix b (drop n xs)"
proof -
  from assms(1) obtain q where xs: "xs = q @ b" by (auto simp: suffix_def)
  with assms(2) have "n \<le> length q" by simp
  then have "drop n xs = drop n q @ b" using xs by simp
  then show ?thesis by (simp add: suffix_def)
qed

lemma find_after_decomp:
  "find_after h doc = Some r \<Longrightarrow> \<exists>q. doc = q @ h @ r"
proof (induction doc)
  case Nil
  then show ?case by (simp split: if_splits)
next
  case (Cons c cs)
  show ?case
  proof (cases "prefix h (c # cs)")
    case True
    with Cons.prems have r: "r = drop (length h) (c # cs)" by simp
    from True obtain t where t: "c # cs = h @ t" by (auto simp: prefix_def)
    have "drop (length h) (h @ t) = t" by simp
    with r t have "c # cs = [] @ h @ r" by simp
    then show ?thesis by blast
  next
    case False
    with Cons.prems have "find_after h cs = Some r" by simp
    from Cons.IH [OF this] obtain q where "cs = q @ h @ r" by blast
    then have "c # cs = (c # q) @ h @ r" by simp
    then show ?thesis by blast
  qed
qed

lemma find_after_mono:
  assumes "find_after h b = Some r"
  shows "\<exists>r'. find_after h (p @ b) = Some r' \<and> suffix r r'"
proof (induction p)
  case Nil
  show ?case using assms by simp
next
  case (Cons x p)
  from Cons.IH obtain r' where r': "find_after h (p @ b) = Some r'" "suffix r r'" by blast
  show ?case
  proof (cases "prefix h (x # p @ b)")
    case True
    from find_after_decomp [OF assms] obtain q where b: "b = q @ h @ r" by blast
    have "suffix r (x # p @ b)" by (simp add: b suffix_def)
    moreover have "length h + length r \<le> length (x # p @ b)" by (simp add: b)
    ultimately have "suffix r (drop (length h) (x # p @ b))" by (rule suffix_drop)
    with True show ?thesis by simp
  next
    case False
    with r' show ?thesis by simp
  qed
qed

lemma sections_in_order_mono:
  "sections_in_order hs b \<Longrightarrow> suffix b d \<Longrightarrow> sections_in_order hs d"
proof (induction hs arbitrary: b d)
  case Nil
  show ?case by simp
next
  case (Cons h hs)
  from Cons.prems(1) obtain r where r: "find_after h b = Some r" "sections_in_order hs r"
    by (auto split: option.splits)
  from Cons.prems(2) obtain p where d: "d = p @ b" by (auto simp: suffix_def)
  from find_after_mono [OF r(1), of p] obtain r' where
    r': "find_after h d = Some r'" "suffix r r'" using d by blast
  from Cons.IH [OF r(2) r'(2)] r'(1) show ?case by simp
qed

lemma find_after_here: "find_after h (h @ b) = Some b"
proof (cases "h @ b")
  case Nil
  then show ?thesis by simp
next
  case (Cons a l)
  have p: "prefix h (a # l)" unfolding Cons [symmetric] by simp
  have d: "drop (length h) (a # l) = b" unfolding Cons [symmetric] by simp
  show ?thesis unfolding Cons using p d by simp
qed

lemma sections_in_order_step:
  assumes "sections_in_order hs rest"
  shows "sections_in_order (h # hs) (a @ h @ rest)"
proof -
  have "sections_in_order (h # hs) (h @ rest)"
    using assms by (simp add: find_after_here)
  moreover have "suffix (h @ rest) (a @ h @ rest)" by (simp add: suffix_def)
  ultimately show ?thesis by (rule sections_in_order_mono)
qed

lemma write_sheets_onto: "f \<noteq> [] \<Longrightarrow> write_sheets ss f = f @ write_sheets ss []"
  by (rule write_sheets_append)

lemma write_modules_onto: "f \<noteq> [] \<Longrightarrow> write_modules ms f = f @ write_modules ms []"
  by (rule write_modules_append)

lemma write_module_code_onto:
  "f \<noteq> [] \<Longrightarrow> write_module_code d f = f @ write_module_code d []"
  by (rule write_module_code_append)

lemma report_text_layout:
  "vba_error r = None \<Longrightarrow>
   report_text r =
     (replicate 80 (CHR ''='') @ nl @ ''Excel File Analysis Report'' @ nl
        @ replicate 80 (CHR ''='') @ nl @ nl)
     @ heading ''FILE INFORMATION''
     @ ((''Filename: '' @ filename r @ nl @ ''Full Path: '' @ full_path r @ nl
          @ ''Analysis Date: '' @ analysis_date r @ nl @ nl)
     @ heading ''WORKSHEET INFORMATION''
     @ ((''Total Worksheets: '' @ str_nat (length (worksheets r)) @ nl
          @ write_sheets (worksheets r) [] @ nl)
     @ heading ''VBA MODULE INFORMATION''
     @ ((''Total Modules: '' @ str_nat (length (modules r)) @ nl
          @ write_modules (modules r) [] @ nl)
     @ heading ''VBA MODULE CODE''
     @ write_module_code (module_code r) [])))"
  by (simp add: report_text_def Let_def heading_def nl_def
      write_sheets_onto write_modules_onto write_module_code_onto)

lemma report_text_error_layout:
  "vba_error r = Some e \<Longrightarrow>
   report_text r =
     (replicate 80 (CHR ''='') @ nl @ ''Excel File Analysis Report'' @ nl
        @ replicate 80 (CHR ''='') @ nl @ nl)
     @ heading ''FILE INFORMATION''
     @ ((''Filename: '' @ filename r @ nl @ ''Full Path: '' @ full_path r @ nl
          @ ''Analysis Date: '' @ analysis_date r @ nl @ nl)
     @ heading ''WORKSHEET INFORMATION''
     @ ((''Total Worksheets: '' @ str_nat (length (worksheets r)) @ nl
          @ write_sheets (worksheets r) [] @ nl)
     @ heading ''VBA MODULE INFORMATION''
     @ (''Error: '' @ e @ nl @ nl)))"
  by (simp add: report_text_def Let_def heading_def nl_def write_sheets_onto)





text \<open>The loops of the report writer produce one block per entry.\<close>

lemma write_sheets_blocks: "write_sheets ss f = f @ concat (map sheet_block ss)"
  by (induction ss arbitrary: f) (simp_all add: sheet_block_def)

lemma write_modules_blocks: "write_modules ms f = f @ concat (map module_block ms)"
  by (induction ms arbitrary: f) (simp_all add: module_block_def)

lemma write_module_code_blocks:
  "write_module_code d f = f @ concat (map listing_block d)"
proof (induction d arbitrary: f)
  case Nil
  show ?case by simp
next
  case (Cons kv d)
  obtain k v where kv: "kv = (k, v)" by (cases kv)
  show ?case by (simp add: kv Cons.IH listing_block_def)
qed

lemma report_text_sections:
  "vba_error r = None \<Longrightarrow>
   report_text r = report_banner @ file_section r @ worksheet_section r @ module_section r
                   @ listing_section r"
  by (simp add: report_text_def Let_def write_sheets_blocks write_modules_blocks
      write_module_code_blocks report_banner_def file_section_def worksheet_section_def
      module_section_def listing_section_def heading_def)

lemma report_text_error_sections:
  "vba_error r = Some e \<Longrightarrow>
   report_text r = report_banner @ file_section r @ worksheet_section r @ error_section e"
  by (simp add: report_text_def Let_def write_sheets_blocks report_banner_def
      file_section_def worksheet_section_def error_section_def heading_def)

section \<open>The claims\<close>

subsection \<open>C1: release of the automation session\<close>

text \<open>
  C1 says that on every exit path of the macro-extractor stage the application is quit, the
  automation runtime is uninitialised and the workbook is closed without saving, also when
  session creation fails after the runtime was initialised. The \<^verbatim>\<open>finally\<close> clause of
  \<^verbatim>\<open>analyze_excel_file\<close> is guarded by \<^verbatim>\<open>if excel:\<close>, and
  \<^verbatim>\<open>wb_vba.Close(SaveChanges=False)\<close> is the last statement of the \<^verbatim>\<open>try\<close> block.
  The calls made in three runs: when \<^verbatim>\<open>Dispatch\<close> raises, \<^verbatim>\<open>CoInitialize\<close> is
  never paired with \<^verbatim>\<open>CoUninitialize\<close>; when the application has started and
  setting \<^verbatim>\<open>DisplayAlerts\<close> raises, neither \<^verbatim>\<open>Quit\<close> nor \<^verbatim>\<open>CoUninitialize\<close> is
  called; when the text of a component cannot be read, the workbook is opened and never
  closed.
\<close>

theorem session_cleanup_skipped:
  "snd (analyze_excel_file world_no_excel ''C:/data/book.xlsm'')
     = [LoadWorkbook ''C:/data/book.xlsm'', CoInitialize, DispatchExcel]
   \<and> CoUninitialize \<notin> set (snd (analyze_excel_file world_no_excel ''C:/data/book.xlsm''))
   \<and> snd (analyze_excel_file world_no_alerts ''C:/data/book.xlsm'')
     = [LoadWorkbook ''C:/data/book.xlsm'', CoInitialize, DispatchExcel, SetDisplayAlerts False]
   \<and> AppQuit \<notin> set (snd (analyze_excel_file world_no_alerts ''C:/data/book.xlsm''))
   \<and> CoUninitialize \<notin> set (snd (analyze_excel_file world_no_alerts ''C:/data/book.xlsm''))
   \<and> snd (analyze_excel_file world_broken ''C:/data/book.xlsm'')
     = [LoadWorkbook ''C:/data/book.xlsm'', CoInitialize, DispatchExcel, SetDisplayAlerts False,
        SetVisible False, WorkbooksOpen ''C:/data/book.xlsm'' True, AppQuit, CoUninitialize]
   \<and> WorkbookClose False \<notin> set (snd (analyze_excel_file world_broken ''C:/data/book.xlsm''))"
  by (simp add: run_defs world_no_excel_def world_no_alerts_def world_broken_def world_defs)

subsection \<open>C2: what a failed extraction leaves in the result\<close>


subsection \<open>C3: the worksheet list\<close>

text \<open>
  C3. When the file exists and the reader opens it as a workbook with worksheets \<open>shs\<close>,
  \<^verbatim>\<open>analyze_excel_file\<close> returns a result whose worksheet list has as many entries as
  \<open>shs\<close>, in the same order: entry \<open>i\<close> carries the title of sheet \<open>i\<close>, its
  \<open>has_content\<close> flag is false exactly when the sheet's calculated dimension is
  \<^verbatim>\<open>A1:A1\<close>, and its print area is the sheet's print-area string, or \<^verbatim>\<open>Not Set\<close> when
  the sheet has none (\<^verbatim>\<open>None\<close> or the empty string).
\<close>

theorem worksheets_in_order:
  assumes "os_path_exists w p" and "load_workbook w p = Inr shs"
  shows "\<exists>r. fst (analyze_excel_file w p) = Inr r
           \<and> length (worksheets r) = length shs
           \<and> (\<forall>i < length shs.
                 ws_name (worksheets r ! i) = title (shs ! i)
               \<and> (\<not> ws_has_content (worksheets r ! i) \<longleftrightarrow> calculate_dimension (shs ! i) = ''A1:A1'')
               \<and> ws_print_area (worksheets r ! i) =
                   (case print_area (shs ! i) of
                      None \<Rightarrow> ''Not Set''
                    | Some a \<Rightarrow> if a = [] then ''Not Set'' else a))"
proof -
  let ?r = "fst (extract_macros w p (read_worksheets shs (initial_results w p)))"
  have ws: "worksheets ?r = map make_sheet_info shs"
    by (simp add: extract_macros_worksheets read_worksheets_eq initial_results_def)
  have "fst (analyze_excel_file w p) = Inr ?r"
    using analyze_returns [OF assms] by simp
  moreover have "length (worksheets ?r) = length shs"
    by (simp add: ws)
  moreover have "\<forall>i < length shs.
                 ws_name (worksheets ?r ! i) = title (shs ! i)
               \<and> (\<not> ws_has_content (worksheets ?r ! i) \<longleftrightarrow> calculate_dimension (shs ! i) = ''A1:A1'')
               \<and> ws_print_area (worksheets ?r ! i) =
                   (case print_area (shs ! i) of
                      None \<Rightarrow> ''Not Set''
                    | Some a \<Rightarrow> if a = [] then ''Not Set'' else a)"
    by (auto simp: ws make_sheet_info_def split: option.splits)
  ultimately show ?thesis by blast
qed

theorem worksheets_in_order_witness:
  "os_path_exists world_ok ''C:/data/book.xlsm''
   \<and> load_workbook world_ok ''C:/data/book.xlsm'' = Inr sample_sheets
   \<and> (\<exists>r. fst (analyze_excel_file world_ok ''C:/data/book.xlsm'') = Inr r
           \<and> length (worksheets r) = length sample_sheets
           \<and> (\<forall>i < length sample_sheets.
                 ws_name (worksheets r ! i) = title (sample_sheets ! i)
               \<and> (\<not> ws_has_content (worksheets r ! i) \<longleftrightarrow> calculate_dimension (sample_sheets ! i) = ''A1:A1'')
               \<and> ws_print_area (worksheets r ! i) =
                   (case print_area (sample_sheets ! i) of
                      None \<Rightarrow> ''Not Set''
                    | Some a \<Rightarrow> if a = [] then ''Not Set'' else a)))"
proof -
  have a: "os_path_exists world_ok ''C:/data/book.xlsm''"
    by (simp add: world_ok_def sample_world_def)
  have b: "load_workbook world_ok ''C:/data/book.xlsm'' = Inr sample_sheets"
    by (simp add: world_ok_def sample_world_def)
  from worksheets_in_order [OF a b] a b show ?thesis by blast
qed

subsection \<open>C4: modules and their text after a successful extraction\<close>

text \<open>
  C4. When no exception leaves the \<^verbatim>\<open>try\<close> block, the result has no \<^verbatim>\<open>vba_error\<close>,
  the keys of \<^verbatim>\<open>module_code\<close> are exactly the names in the modules list, the modules
  list holds one record per component, in order, with the component's name, type and line
  count, and each component maps to \<^verbatim>\<open>(Empty Module)\<close> when its line count is not
  positive and to the text \<^verbatim>\<open>Lines(1, CountOfLines)\<close> returned otherwise. The mapping is
  a dictionary, so the entry of a name is the one stored last: the statement about the
  text is for a component whose name no later component carries, which is every component
  when names are unique within the project, as the host keeps them.
\<close>

theorem module_code_matches_modules:
  assumes "os_path_exists w p" and "load_workbook w p = Inr shs"
    and "extraction_exception w p = None"
  shows "\<exists>r comps. fst (analyze_excel_file w p) = Inr r \<and> vba_error r = None
           \<and> session_components w p = Some comps
           \<and> dict_keys (module_code r) = set (map mod_name (modules r))
           \<and> length (modules r) = length comps
           \<and> (\<forall>i < length comps.
                 Name (comps ! i) = Inr (mod_name (modules r ! i))
               \<and> Type (comps ! i) = Inr (mod_type (modules r ! i))
               \<and> CountOfLines (comps ! i) = Inr (mod_code_lines (modules r ! i))
               \<and> ((\<forall>j < length comps. i < j \<longrightarrow> Name (comps ! j) \<noteq> Name (comps ! i)) \<longrightarrow>
                    (if mod_code_lines (modules r ! i) > 0
                     then \<exists>code. Lines (comps ! i) 1 (mod_code_lines (modules r ! i)) = Inr code
                            \<and> map_of (module_code r) (mod_name (modules r ! i)) = Some code
                     else map_of (module_code r) (mod_name (modules r ! i))
                            = Some ''(Empty Module)'')))"
proof -
  let ?init = "read_worksheets shs (initial_results w p)"
  obtain comps where comps: "session_components w p = Some comps"
    and ok: "fst (enumerate_components comps ?init) = None"
    using no_exception_components [OF assms(3), of ?init] by blast
  obtain r where run: "enumerate_components comps ?init = (None, r)"
    using ok by (cases "enumerate_components comps ?init") simp
  have res: "fst (analyze_excel_file w p) = Inr r"
    using analyze_returns [OF assms(1,2)] assms(3) comps run
    by (simp add: extract_macros_results extract_body_results)
  have err: "vba_error r = None"
    using enumerate_components_vba_error [of comps ?init] run
    by (simp add: reader_results_fields)
  obtain ms where ms: "modules r = ms" "length ms = length comps"
      "\<forall>i < length ms. Name (comps ! i) = Inr (mod_name (ms ! i))
                 \<and> Type (comps ! i) = Inr (mod_type (ms ! i))
                 \<and> CountOfLines (comps ! i) = Inr (mod_code_lines (ms ! i))"
    using enumerate_components_modules [OF run] by (auto simp: reader_results_fields)
  have keys: "dict_keys (module_code r) = set (map mod_name (modules r))"
    using enumerate_components_keys [OF run] by (simp add: reader_results_fields dict_keys_def)
  have each: "\<forall>i < length comps.
                 Name (comps ! i) = Inr (mod_name (modules r ! i))
               \<and> Type (comps ! i) = Inr (mod_type (modules r ! i))
               \<and> CountOfLines (comps ! i) = Inr (mod_code_lines (modules r ! i))
               \<and> ((\<forall>j < length comps. i < j \<longrightarrow> Name (comps ! j) \<noteq> Name (comps ! i)) \<longrightarrow>
                    (if mod_code_lines (modules r ! i) > 0
                     then \<exists>code. Lines (comps ! i) 1 (mod_code_lines (modules r ! i)) = Inr code
                            \<and> map_of (module_code r) (mod_name (modules r ! i)) = Some code
                     else map_of (module_code r) (mod_name (modules r ! i))
                            = Some ''(Empty Module)''))"
  proof (intro allI impI conjI)
    fix i assume i: "i < length comps"
    from ms i show "Name (comps ! i) = Inr (mod_name (modules r ! i))"
      and "Type (comps ! i) = Inr (mod_type (modules r ! i))"
      and k: "CountOfLines (comps ! i) = Inr (mod_code_lines (modules r ! i))"
      by simp_all
    assume later: "\<forall>j < length comps. i < j \<longrightarrow> Name (comps ! j) \<noteq> Name (comps ! i)"
    from enumerate_components_lookup [OF run i later] ms i
    show "if mod_code_lines (modules r ! i) > 0
          then \<exists>code. Lines (comps ! i) 1 (mod_code_lines (modules r ! i)) = Inr code
                 \<and> map_of (module_code r) (mod_name (modules r ! i)) = Some code
          else map_of (module_code r) (mod_name (modules r ! i)) = Some ''(Empty Module)''"
      by auto
  qed
  from res err comps keys ms(1,2) each show ?thesis by blast
qed

theorem module_code_matches_modules_witness:
  "os_path_exists world_ok ''C:/data/book.xlsm''
   \<and> load_workbook world_ok ''C:/data/book.xlsm'' = Inr sample_sheets
   \<and> extraction_exception world_ok ''C:/data/book.xlsm'' = None
   \<and> (\<exists>r comps. fst (analyze_excel_file world_ok ''C:/data/book.xlsm'') = Inr r
           \<and> vba_error r = None
           \<and> session_components world_ok ''C:/data/book.xlsm'' = Some comps
           \<and> dict_keys (module_code r) = set (map mod_name (modules r))
           \<and> length (modules r) = length comps
           \<and> (\<forall>i < length comps.
                 Name (comps ! i) = Inr (mod_name (modules r ! i))
               \<and> Type (comps ! i) = Inr (mod_type (modules r ! i))
               \<and> CountOfLines (comps ! i) = Inr (mod_code_lines (modules r ! i))
               \<and> ((\<forall>j < length comps. i < j \<longrightarrow> Name (comps ! j) \<noteq> Name (comps ! i)) \<longrightarrow>
                    (if mod_code_lines (modules r ! i) > 0
                     then \<exists>code. Lines (comps ! i) 1 (mod_code_lines (modules r ! i)) = Inr code
                            \<and> map_of (module_code r) (mod_name (modules r ! i)) = Some code
                     else map_of (module_code r) (mod_name (modules r ! i))
                            = Some ''(Empty Module)''))))
   \<and> module_code (projr (fst (analyze_excel_file world_ok ''C:/data/book.xlsm'')))
       = [(''Module1'', ''Sub Hello()'' @ [CHR 0x0D, CHR 0x0A] @ ''End Sub''),
          (''ThisWorkbook'', ''(Empty Module)'')]"
proof -
  let ?p = "''C:/data/book.xlsm''"
  have a: "os_path_exists world_ok ?p"
    by (simp add: world_ok_def sample_world_def)
  have b: "load_workbook world_ok ?p = Inr sample_sheets"
    by (simp add: world_ok_def sample_world_def)
  have c: "extraction_exception world_ok ?p = None"
    by (simp add: extraction_exception_def run_defs world_ok_def world_defs)
  have d: "module_code (projr (fst (analyze_excel_file world_ok ?p)))
       = [(''Module1'', ''Sub Hello()'' @ [CHR 0x0D, CHR 0x0A] @ ''End Sub''),
          (''ThisWorkbook'', ''(Empty Module)'')]"
    by (simp add: run_defs world_ok_def world_defs)
  from module_code_matches_modules [OF a b c] a b c d show ?thesis by blast
qed

subsection \<open>C5: a path that does not exist\<close>

text \<open>
  C5. For a path that does not exist, \<^verbatim>\<open>analyze_excel_file\<close> raises
  \<^verbatim>\<open>FileNotFoundError\<close> before it calls any collaborator, and when that path is the one
  the dialog returned, \<^verbatim>\<open>main\<close> opens no workbook and writes no file.
\<close>

theorem missing_file_not_found:
  assumes "\<not> os_path_exists w p"
  shows "analyze_excel_file w p = (Inl (FileNotFoundError (''File not found: '' @ p)), [])
         \<and> (askopenfilename w = p \<longrightarrow>
              (\<forall>ev \<in> set (main w). \<not> writes_file ev \<and> \<not> opens_workbook ev))"
  using assms by (auto simp: analyze_excel_file_def main_def select_file_def)

theorem missing_file_not_found_witness:
  "\<not> os_path_exists world_ok ''C:/data/gone.xlsx''
   \<and> analyze_excel_file world_ok ''C:/data/gone.xlsx''
       = (Inl (FileNotFoundError ''File not found: C:/data/gone.xlsx''), [])
   \<and> main (world_ok\<lparr>askopenfilename := ''C:/data/gone.xlsx''\<rparr>)
       = [AskOpenFilename, ShowError ''Error'' ''An error occurred: File not found: C:/data/gone.xlsx'']"
proof -
  let ?w = "world_ok\<lparr>askopenfilename := ''C:/data/gone.xlsx''\<rparr>"
  have a: "\<not> os_path_exists ?w ''C:/data/gone.xlsx''"
    by (simp add: world_ok_def sample_world_def)
  have m: "main ?w = [AskOpenFilename, ShowError ''Error'' ''An error occurred: File not found: C:/data/gone.xlsx'']"
    using missing_file_not_found [OF a] by (simp add: main_def select_file_def)
  have "analyze_excel_file ?w ''C:/data/gone.xlsx'' = analyze_excel_file world_ok ''C:/data/gone.xlsx''"
    by (simp add: analyze_excel_file_def world_ok_def sample_world_def)
  with missing_file_not_found [OF a] a m show ?thesis
    by (simp add: world_ok_def sample_world_def)
qed

subsection \<open>C6: the recorded error text\<close>

text \<open>
  C6. When the \<^verbatim>\<open>try\<close> block of the extractor stage is left by an exception \<open>e\<close>,
  \<^verbatim>\<open>analyze_excel_file\<close> still returns a result, whose \<^verbatim>\<open>vba_error\<close> is the
  trust-centre message when the text of \<open>e\<close> contains the trust-centre phrase and the
  text of \<open>e\<close> otherwise; \<^verbatim>\<open>main\<close> goes on to write the report of that result and
  ends with the completion dialog whenever the report file can be written.
\<close>

theorem vba_error_text:
  assumes "os_path_exists w p" and "load_workbook w p = Inr shs"
    and "extraction_exception w p = Some e"
  shows "\<exists>r tr. analyze_excel_file w p = (Inr r, tr)
           \<and> vba_error r =
               Some (if contains ''Programmatic access to Visual Basic Project is not trusted'' (str e)
                     then ''VBA access not enabled in Excel Trust Center'' else str e)
           \<and> (askopenfilename w = p \<longrightarrow> p \<noteq> [] \<longrightarrow>
                (\<forall>out. fst (save_analysis_to_file w r None) = Inr out \<longrightarrow>
                   main w = [AskOpenFilename] @ tr
                     @ [WriteFile out ''utf-8'' (report_text r),
                        ShowInfo ''Analysis Complete''
                          (''Analysis has been saved to:'' @ nl @ out)]))"
proof -
  let ?init = "read_worksheets shs (initial_results w p)"
  let ?r = "fst (extract_macros w p ?init)"
  let ?tr = "LoadWorkbook p # snd (extract_macros w p ?init)"
  have run: "analyze_excel_file w p = (Inr ?r, ?tr)"
    using analyze_returns [OF assms(1,2)] .
  have err: "vba_error ?r =
               Some (if contains ''Programmatic access to Visual Basic Project is not trusted'' (str e)
                     then ''VBA access not enabled in Excel Trust Center'' else str e)"
    using assms(3) by (simp add: extract_macros_results handle_vba_error_text)
  have "askopenfilename w = p \<longrightarrow> p \<noteq> [] \<longrightarrow>
          (\<forall>out. fst (save_analysis_to_file w ?r None) = Inr out \<longrightarrow>
             main w = [AskOpenFilename] @ ?tr
               @ [WriteFile out ''utf-8'' (report_text ?r),
                  ShowInfo ''Analysis Complete'' (''Analysis has been saved to:'' @ nl @ out)])"
    using main_continues [OF _ _ run] by blast
  with run err show ?thesis by blast
qed

theorem vba_error_text_witness:
  "os_path_exists world_untrusted ''C:/data/book.xlsm''
   \<and> load_workbook world_untrusted ''C:/data/book.xlsm'' = Inr sample_sheets
   \<and> extraction_exception world_untrusted ''C:/data/book.xlsm''
        = Some (CollaboratorError ''Programmatic access to Visual Basic Project is not trusted'')
   \<and> (\<exists>r tr. analyze_excel_file world_untrusted ''C:/data/book.xlsm'' = (Inr r, tr)
          \<and> vba_error r = Some ''VBA access not enabled in Excel Trust Center'')
   \<and> os_path_exists world_broken ''C:/data/book.xlsm''
   \<and> load_workbook world_broken ''C:/data/book.xlsm'' = Inr sample_sheets
   \<and> extraction_exception world_broken ''C:/data/book.xlsm''
        = Some (CollaboratorError ''Call was rejected by callee.'')
   \<and> (\<exists>r tr. analyze_excel_file world_broken ''C:/data/book.xlsm'' = (Inr r, tr)
          \<and> vba_error r = Some ''Call was rejected by callee.'')"
proof -
  let ?p = "''C:/data/book.xlsm''"
  let ?t = "CollaboratorError ''Programmatic access to Visual Basic Project is not trusted''"
  let ?c = "CollaboratorError ''Call was rejected by callee.''"
  have a: "os_path_exists world_untrusted ?p"
    by (simp add: world_untrusted_def sample_world_def)
  have b: "load_workbook world_untrusted ?p = Inr sample_sheets"
    by (simp add: world_untrusted_def sample_world_def)
  have c: "extraction_exception world_untrusted ?p = Some ?t"
    by (simp add: extraction_exception_def extract_body_def create_excel_instance_def
        world_untrusted_def world_defs Let_def)
  have a': "os_path_exists world_broken ?p"
    by (simp add: world_broken_def sample_world_def)
  have b': "load_workbook world_broken ?p = Inr sample_sheets"
    by (simp add: world_broken_def sample_world_def)
  have c': "extraction_exception world_broken ?p = Some ?c"
    by (simp add: extraction_exception_def extract_body_def create_excel_instance_def
        process_component_def world_broken_def world_defs Let_def)
  have "\<exists>r tr. analyze_excel_file world_untrusted ?p = (Inr r, tr)
          \<and> vba_error r = Some ''VBA access not enabled in Excel Trust Center''"
    using vba_error_text [OF a b c] by simp blast
  moreover have "\<exists>r tr. analyze_excel_file world_broken ?p = (Inr r, tr)
          \<and> vba_error r = Some ''Call was rejected by callee.''"
    using vba_error_text [OF a' b' c'] by simp blast
  ultimately show ?thesis using a b c a' b' c' by blast
qed

subsection \<open>C7: the sections of the report\<close>

text \<open>
  C7 says that the report of every populated result has four sections in order: file
  information, worksheet information, macro-module information (or the recorded error)
  and the macro source listings. In \<^verbatim>\<open>save_analysis_to_file\<close> the listing is written
  in the \<^verbatim>\<open>else\<close> branch of \<^verbatim>\<open>if 'vba_error' in results\<close>: the report of the result
  returned when the host forbids access to the macro project has no listing section.
\<close>

theorem report_sections_counterexample:
  "fst (analyze_excel_file world_untrusted ''C:/data/book.xlsm'') = Inr untrusted_result
   \<and> \<not> sections_in_order
        [heading ''FILE INFORMATION'', heading ''WORKSHEET INFORMATION'',
         heading ''VBA MODULE INFORMATION'', heading ''VBA MODULE CODE'']
        (report_text untrusted_result)"
  by code_simp

text \<open>
  C7, amended. The report of a result without \<^verbatim>\<open>vba_error\<close> is the banner followed by
  four sections in this order: file information, worksheet information with a block for
  every worksheet, macro-module information with a block for every module, and the source
  listings with, for every entry of \<^verbatim>\<open>module_code\<close> in order, its name, a line of dashes
  and its full text. The report of a result with \<^verbatim>\<open>vba_error\<close> is the banner followed
  by three sections: file information, worksheet information and the macro-module heading
  with the error line in place of the module list; nothing follows, so no source listing
  is written.
\<close>

theorem report_sections:
  "(vba_error r = None \<longrightarrow>
      report_text r = report_banner @ file_section r @ worksheet_section r
                      @ module_section r @ listing_section r
    \<and> sections_in_order
        [heading ''FILE INFORMATION'', heading ''WORKSHEET INFORMATION'',
         heading ''VBA MODULE INFORMATION'', heading ''VBA MODULE CODE'']
        (report_text r))
   \<and> (\<forall>e. vba_error r = Some e \<longrightarrow>
          report_text r = report_banner @ file_section r @ worksheet_section r
                          @ error_section e
        \<and> sections_in_order
            [heading ''FILE INFORMATION'', heading ''WORKSHEET INFORMATION'',
             heading ''VBA MODULE INFORMATION'']
            (report_text r))"
proof (intro conjI impI allI)
  assume n: "vba_error r = None"
  then show "report_text r = report_banner @ file_section r @ worksheet_section r
                      @ module_section r @ listing_section r"
    by (rule report_text_sections)
  from n show "sections_in_order
        [heading ''FILE INFORMATION'', heading ''WORKSHEET INFORMATION'',
         heading ''VBA MODULE INFORMATION'', heading ''VBA MODULE CODE'']
        (report_text r)"
    by (simp only: report_text_layout)
       (intro sections_in_order_step, simp)
next
  fix e assume e: "vba_error r = Some e"
  then show "report_text r = report_banner @ file_section r @ worksheet_section r
                          @ error_section e"
    by (rule report_text_error_sections)
  from e show "sections_in_order
            [heading ''FILE INFORMATION'', heading ''WORKSHEET INFORMATION'',
             heading ''VBA MODULE INFORMATION'']
            (report_text r)"
    by (simp only: report_text_error_layout)
       (intro sections_in_order_step, simp)
qed

theorem report_sections_witness:
  "vba_error untrusted_result = Some ''VBA access not enabled in Excel Trust Center''
   \<and> report_text untrusted_result
       = report_banner @ file_section untrusted_result @ worksheet_section untrusted_result
         @ error_section ''VBA access not enabled in Excel Trust Center''
   \<and> sections_in_order
        [heading ''FILE INFORMATION'', heading ''WORKSHEET INFORMATION'',
         heading ''VBA MODULE INFORMATION'']
        (report_text untrusted_result)
   \<and> vba_error (projr (fst (analyze_excel_file world_ok ''C:/data/book.xlsm''))) = None
   \<and> report_text (projr (fst (analyze_excel_file world_ok ''C:/data/book.xlsm'')))
       = report_banner
         @ file_section (projr (fst (analyze_excel_file world_ok ''C:/data/book.xlsm'')))
         @ worksheet_section (projr (fst (analyze_excel_file world_ok ''C:/data/book.xlsm'')))
         @ module_section (projr (fst (analyze_excel_file world_ok ''C:/data/book.xlsm'')))
         @ listing_section (projr (fst (analyze_excel_file world_ok ''C:/data/book.xlsm'')))
   \<and> listing_section (projr (fst (analyze_excel_file world_ok ''C:/data/book.xlsm'')))
       = heading ''VBA MODULE CODE''
         @ nl @ ''Module1'' @ nl @ ''-------'' @ nl
         @ ''Sub Hello()'' @ [CHR 0x0D, CHR 0x0A] @ ''End Sub'' @ nl @ nl
         @ nl @ ''ThisWorkbook'' @ nl @ ''------------'' @ nl
         @ ''(Empty Module)'' @ nl @ nl
   \<and> sections_in_order
        [heading ''FILE INFORMATION'', heading ''WORKSHEET INFORMATION'',
         heading ''VBA MODULE INFORMATION'', heading ''VBA MODULE CODE'']
        (report_text (projr (fst (analyze_excel_file world_ok ''C:/data/book.xlsm''))))"
proof -
  let ?ok = "projr (fst (analyze_excel_file world_ok ''C:/data/book.xlsm''))"
  have a: "vba_error untrusted_result = Some ''VBA access not enabled in Excel Trust Center''"
    by (simp add: untrusted_result_def)
  have b: "vba_error ?ok = None"
    by (simp add: run_defs world_ok_def world_defs)
  have l: "listing_section ?ok
       = heading ''VBA MODULE CODE''
         @ nl @ ''Module1'' @ nl @ ''-------'' @ nl
         @ ''Sub Hello()'' @ [CHR 0x0D, CHR 0x0A] @ ''End Sub'' @ nl @ nl
         @ nl @ ''ThisWorkbook'' @ nl @ ''------------'' @ nl
         @ ''(Empty Module)'' @ nl @ nl"
    by (simp add: listing_section_def listing_block_def run_defs world_ok_def world_defs)
  from report_sections [of untrusted_result] a
  have u: "report_text untrusted_result
       = report_banner @ file_section untrusted_result @ worksheet_section untrusted_result
         @ error_section ''VBA access not enabled in Excel Trust Center''
    \<and> sections_in_order
        [heading ''FILE INFORMATION'', heading ''WORKSHEET INFORMATION'',
         heading ''VBA MODULE INFORMATION'']
        (report_text untrusted_result)"
    by blast
  from report_sections [of ?ok] b
  have k: "report_text ?ok
       = report_banner @ file_section ?ok @ worksheet_section ?ok @ module_section ?ok
         @ listing_section ?ok
    \<and> sections_in_order
        [heading ''FILE INFORMATION'', heading ''WORKSHEET INFORMATION'',
         heading ''VBA MODULE INFORMATION'', heading ''VBA MODULE CODE'']
        (report_text ?ok)"
    by blast
  from a b l u k show ?thesis by blast
qed

subsection \<open>C8: the report file and its path\<close>

text \<open>
  C8. Whenever the output file can be opened for writing, \<^verbatim>\<open>save_analysis_to_file\<close>
  writes one file, with encoding \<^verbatim>\<open>utf-8\<close> and the report as its text, and returns
  exactly the path it wrote. The path is \<^verbatim>\<open>os.path.join\<close> of the directory and
  \<^verbatim>\<open><basename>_analysis_<timestamp>.txt\<close>, where the directory is the caller's when one
  is given and otherwise \<^verbatim>\<open>os.path.dirname\<close> of the result's full path, the base name
  is the result's file name without its extension, and the timestamp of a valid date has
  the shape \<^verbatim>\<open>YYYYMMDD_HHMMSS\<close>. In a result of \<^verbatim>\<open>analyze_excel_file\<close> the full path is
  the source path and the file name its \<^verbatim>\<open>os.path.basename\<close>.
\<close>

theorem report_file_written:
  assumes "open_write w
             (os_path_join w
                (case output_dir of None \<Rightarrow> os_path_dirname w (full_path r) | Some d \<Rightarrow> d)
                (fst (os_path_splitext w (filename r)) @ ''_analysis_''
                   @ strftime_stamp (now_report w) @ ''.txt'')) = None"
  shows "\<exists>out. save_analysis_to_file w r output_dir
                  = (Inr out, [WriteFile out ''utf-8'' (report_text r)])
           \<and> out = os_path_join w
                     (case output_dir of None \<Rightarrow> os_path_dirname w (full_path r) | Some d \<Rightarrow> d)
                     (fst (os_path_splitext w (filename r)) @ ''_analysis_''
                        @ strftime_stamp (now_report w) @ ''.txt'')
           \<and> (valid_datetime (now_report w) \<longrightarrow> stamp_shaped (strftime_stamp (now_report w)))
           \<and> (\<forall>p. fst (analyze_excel_file w p) = Inr r \<longrightarrow>
                  filename r = os_path_basename w p \<and> full_path r = p)"
proof -
  let ?out = "os_path_join w
                (case output_dir of None \<Rightarrow> os_path_dirname w (full_path r) | Some d \<Rightarrow> d)
                (fst (os_path_splitext w (filename r)) @ ''_analysis_''
                   @ strftime_stamp (now_report w) @ ''.txt'')"
  have run: "save_analysis_to_file w r output_dir
               = (Inr ?out, [WriteFile ?out ''utf-8'' (report_text r)])"
    using assms by (simp add: save_analysis_to_file_def Let_def)
  have shape: "valid_datetime (now_report w) \<longrightarrow> stamp_shaped (strftime_stamp (now_report w))"
    by (simp add: strftime_stamp_shaped)
  have src: "\<forall>p. fst (analyze_excel_file w p) = Inr r \<longrightarrow>
                  filename r = os_path_basename w p \<and> full_path r = p"
    using analyze_path_fields by blast
  from run shape src show ?thesis by blast
qed

theorem report_file_written_witness:
  "open_write world_ok
     (''C:/data'' @ [CHR 0x5C] @ ''book_analysis_20240309_140508.txt'') = None
   \<and> save_analysis_to_file world_ok untrusted_result None
       = (Inr (''C:/data'' @ [CHR 0x5C] @ ''book_analysis_20240309_140508.txt''),
          [WriteFile (''C:/data'' @ [CHR 0x5C] @ ''book_analysis_20240309_140508.txt'') ''utf-8''
             (report_text untrusted_result)])
   \<and> valid_datetime (now_report world_ok)
   \<and> stamp_shaped ''20240309_140508''"
proof -
  have v: "valid_datetime (now_report world_ok)"
    by (simp add: valid_datetime_def world_ok_def sample_world_def)
  have stamp: "strftime_stamp (now_report world_ok) = ''20240309_140508''"
    by (simp add: strftime_stamp_digits [OF v])
      (simp add: world_ok_def sample_world_def digit_char_def)
  have path: "os_path_join world_ok
                (case None of None \<Rightarrow> os_path_dirname world_ok (full_path untrusted_result)
                 | Some d \<Rightarrow> d)
                (fst (os_path_splitext world_ok (filename untrusted_result)) @ ''_analysis_''
                   @ strftime_stamp (now_report world_ok) @ ''.txt'')
              = ''C:/data'' @ [CHR 0x5C] @ ''book_analysis_20240309_140508.txt''"
    by (simp add: stamp) (simp add: world_ok_def sample_world_def untrusted_result_def)
  have a: "open_write world_ok
             (os_path_join world_ok
                (case None of None \<Rightarrow> os_path_dirname world_ok (full_path untrusted_result)
                 | Some d \<Rightarrow> d)
                (fst (os_path_splitext world_ok (filename untrusted_result)) @ ''_analysis_''
                   @ strftime_stamp (now_report world_ok) @ ''.txt'')) = None"
    by (simp add: world_ok_def sample_world_def)
  from report_file_written [OF a] obtain out where
    out: "save_analysis_to_file world_ok untrusted_result None
            = (Inr out, [WriteFile out ''utf-8'' (report_text untrusted_result)])"
      "out = os_path_join world_ok
                (case None of None \<Rightarrow> os_path_dirname world_ok (full_path untrusted_result)
                 | Some d \<Rightarrow> d)
                (fst (os_path_splitext world_ok (filename untrusted_result)) @ ''_analysis_''
                   @ strftime_stamp (now_report world_ok) @ ''.txt'')"
      "valid_datetime (now_report world_ok) \<longrightarrow> stamp_shaped (strftime_stamp (now_report world_ok))"
    by blast
  have o: "out = ''C:/data'' @ [CHR 0x5C] @ ''book_analysis_20240309_140508.txt''"
    using out(2) path by simp
  have "open_write world_ok (''C:/data'' @ [CHR 0x5C] @ ''book_analysis_20240309_140508.txt'') = None"
    using a path by simp
  moreover have "stamp_shaped ''20240309_140508''"
    using out(3) v stamp by simp
  ultimately show ?thesis using out(1) o v by simp
qed

subsection \<open>C9: keys of the mapping during the enumeration\<close>

text \<open>
  C9. \<open>enumeration_states\<close> lists every value \<^verbatim>\<open>results\<close> takes while
  \<^verbatim>\<open>analyze_excel_file\<close> enumerates the components, up to the end of the loop or to the
  exception that interrupts it. In the value the loop starts from and in every value after
  it, each key of \<^verbatim>\<open>module_code\<close> is the name of a record already in the modules
  list; the last of these values is the one the loop leaves behind.
\<close>

theorem module_code_keys_recorded:
  "(\<forall>s \<in> set (read_worksheets shs (initial_results w p)
                # enumeration_states cs (read_worksheets shs (initial_results w p))).
       dict_keys (module_code s) \<subseteq> set (map mod_name (modules s)))
   \<and> snd (enumerate_components cs (read_worksheets shs (initial_results w p)))
       = last (read_worksheets shs (initial_results w p)
               # enumeration_states cs (read_worksheets shs (initial_results w p)))"
proof -
  let ?init = "read_worksheets shs (initial_results w p)"
  have start: "dict_keys (module_code ?init) \<subseteq> set (map mod_name (modules ?init))"
    by (simp add: reader_results_fields dict_keys_def)
  then have "\<forall>s \<in> set (?init # enumeration_states cs ?init).
       dict_keys (module_code s) \<subseteq> set (map mod_name (modules s))"
    using enumeration_states_invariant [OF start] by auto
  then show ?thesis
    using enumerate_components_last [of cs ?init] by simp
qed

theorem module_code_keys_recorded_witness:
  "map (\<lambda>s. (map mod_name (modules s), map fst (module_code s)))
        (enumeration_states [module1, broken_module, this_workbook]
           (read_worksheets sample_sheets (initial_results world_broken ''C:/data/book.xlsm'')))
      = [([''Module1''], []), ([''Module1''], [''Module1'']), ([''Module1'', ''Module2''], [''Module1''])]
   \<and> list_all (\<lambda>s. dict_keys (module_code s) \<subseteq> set (map mod_name (modules s)))
        (read_worksheets sample_sheets (initial_results world_broken ''C:/data/book.xlsm'')
         # enumeration_states [module1, broken_module, this_workbook]
             (read_worksheets sample_sheets (initial_results world_broken ''C:/data/book.xlsm'')))
   \<and> snd (enumerate_components [module1, broken_module, this_workbook]
            (read_worksheets sample_sheets (initial_results world_broken ''C:/data/book.xlsm'')))
       = last (read_worksheets sample_sheets (initial_results world_broken ''C:/data/book.xlsm'')
               # enumeration_states [module1, broken_module, this_workbook]
                   (read_worksheets sample_sheets (initial_results world_broken ''C:/data/book.xlsm'')))"
proof -
  let ?r = "read_worksheets sample_sheets (initial_results world_broken ''C:/data/book.xlsm'')"
  let ?cs = "[module1, broken_module, this_workbook]"
  have b: "map (\<lambda>s. (map mod_name (modules s), map fst (module_code s)))
        (enumeration_states ?cs ?r)
      = [([''Module1''], []), ([''Module1''], [''Module1'']), ([''Module1'', ''Module2''], [''Module1''])]"
    by (simp add: initial_results_def process_component_def component_states_def Let_def
        module1_def broken_module_def this_workbook_def read_worksheets_eq)
  note t = module_code_keys_recorded [of sample_sheets world_broken "''C:/data/book.xlsm''" ?cs]
  from t have "list_all (\<lambda>s. dict_keys (module_code s) \<subseteq> set (map mod_name (modules s)))
        (?r # enumeration_states ?cs ?r)"
    unfolding list_all_iff by blast
  with t b show ?thesis by blast
qed

subsection \<open>C10: a cancelled selection\<close>

text \<open>
  C10. When the dialog returns the empty selection, \<^verbatim>\<open>main\<close> prints its notice and
  returns: the dialog and the notice are the only calls it makes, so no workbook is
  opened, nothing is analysed and no file is written.
\<close>

theorem cancelled_selection_returns:
  assumes "askopenfilename w = []"
  shows "main w = [AskOpenFilename, Print ''No file selected'']
         \<and> (\<forall>ev \<in> set (main w). \<not> opens_workbook ev \<and> \<not> writes_file ev)"
  using assms by (simp add: main_def select_file_def)

theorem cancelled_selection_returns_witness:
  "askopenfilename world_cancel = []
   \<and> main world_cancel = [AskOpenFilename, Print ''No file selected'']"
proof -
  have a: "askopenfilename world_cancel = []"
    by (simp add: world_cancel_def)
  from cancelled_selection_returns [OF a] a show ?thesis by simp
qed

end
